theory Spec2Isabelle
  imports Main
begin

section \<open>The data model\<close>

subsection \<open>JavaScript values\<close>

text \<open>
  The values that reach the codec of \<^verbatim>\<open>lib/common/grpc-service.js\<close>. \<open>JObject ps\<close> is
  an object given by the list \<open>ps\<close> of its own enumerable properties in enumeration
  order, each name once. An object that the code receives has the prototype
  \<^verbatim>\<open>Object.prototype\<close> (an object literal, a result of \<^verbatim>\<open>JSON.parse\<close>): an object made
  with another prototype, or with none (\<^verbatim>\<open>Object.create(null)\<close>, on which the call
  \<^verbatim>\<open>obj.hasOwnProperty(prop)\<close> throws a TypeError), is not a value of this type, and no
  theorem below speaks of one. \<open>JOther ty s\<close> is any value that none of the tests of the
  \<^verbatim>\<open>is\<close> package recognises (a function, a symbol, a Date, ...), carrying the result
  \<open>ty\<close> of \<^verbatim>\<open>typeof\<close> and the result \<open>s\<close> of \<^verbatim>\<open>String(value)\<close>. Numbers are integers:
  the code stores and compares numbers, it never computes with them. Isabelle does not
  admit a name ending in an underscore, so \<^verbatim>\<open>encodeValue_\<close> is \<open>encodeValue\<close> here, and
  likewise for the other functions.
\<close>

datatype js =
    JUndefined
  | JNull
  | JNumber int
  | JString string
  | JBoolean bool
  | JBuffer "nat list"
  | JObject "(string \<times> js) list"
  | JArray "js list"
  | JOther string string

type_synonym props = "(string \<times> js) list"

text \<open>
  What is thrown: \<^verbatim>\<open>new Error(message)\<close> and the TypeError of the interpreter.
  \<open>NotModelled\<close> is no exception: it stands for the one step that the model does not
  compute, the call of a function that an object itself holds (see \<open>hasOwnProperty\<close>).
\<close>

datatype error = Error string | TypeError | NotModelled

subsection \<open>The service instance\<close>

text \<open>
  Channel credentials, as the functions of \<^verbatim>\<open>grpc.credentials\<close> build them:
  \<^verbatim>\<open>createInsecure()\<close>, \<^verbatim>\<open>createSsl()\<close>, \<^verbatim>\<open>createFromGoogleCredential(authClient)\<close>
  (an auth client is named by a number) and \<^verbatim>\<open>combineChannelCredentials(a, b)\<close>.
\<close>

datatype credentials =
    Insecure
  | Ssl
  | FromGoogleCredential nat
  | Combine credentials credentials

text \<open>
  A service object, the result of \<^verbatim>\<open>new proto[protoOpts.service](baseUrl, grpcCredentials)\<close>:
  its class, the two arguments of the constructor, and a serial number that tells two
  objects apart (the number of objects constructed before it).
\<close>

record stub =
  stub_class :: string
  stub_url :: string
  stub_credentials :: "credentials option"
  stub_serial :: nat

text \<open>
  The fields of a \<^verbatim>\<open>GrpcService\<close> that the code reads and writes. \<open>protos\<close> maps a name
  to a loaded namespace, which maps a service name to a class; \<open>activeServiceMap\<close> is the
  \<^verbatim>\<open>Map\<close> \<^verbatim>\<open>activeServiceMap_\<close>. Two counters record what happened:
  \<open>constructed\<close> counts the executions of \<^verbatim>\<open>new\<close> in \<^verbatim>\<open>getService_\<close>, \<open>authCalls\<close> the
  calls of \<^verbatim>\<open>authClient.getAuthClient\<close>. The sandbox flag \<^verbatim>\<open>GCLOUD_SANDBOX_ENV\<close> is unset.
\<close>

record grpc_service =
  baseUrl :: string
  service :: string
  maxRetries :: nat
  grpcCredentials :: "credentials option"
  protos :: "string \<Rightarrow> (string \<Rightarrow> string option) option"
  activeServiceMap :: "string \<Rightarrow> stub option"
  constructed :: nat
  authCalls :: nat

text \<open>The part of the constructor's \<^verbatim>\<open>config\<close> that this model reads.\<close>

record config =
  config_baseUrl :: string
  config_service :: string
  config_customEndpoint :: bool

subsection \<open>Operations on values\<close>

text \<open>Truthiness, as \<^verbatim>\<open>if (x)\<close>, \<^verbatim>\<open>!x\<close> and \<^verbatim>\<open>x || y\<close> test it.\<close>

fun truthy :: "js \<Rightarrow> bool" where
  "truthy JUndefined = False"
| "truthy JNull = False"
| "truthy (JNumber n) = (n \<noteq> 0)"
| "truthy (JString s) = (s \<noteq> [])"
| "truthy (JBoolean b) = b"
| "truthy (JBuffer b) = True"
| "truthy (JObject ps) = True"
| "truthy (JArray xs) = True"
| "truthy (JOther ty s) = True"

text \<open>
  Giving an object the own property \<open>k\<close> with the value \<open>v\<close>: an existing property keeps
  its place.
\<close>

fun setProp :: "props \<Rightarrow> string \<Rightarrow> js \<Rightarrow> props" where
  "setProp [] k v = [(k, v)]"
| "setProp ((k', v') # ps) k v =
     (if k' = k then (k, v) # ps else (k', v') # setProp ps k v)"

text \<open>
  The assignment \<^verbatim>\<open>target[k] = v\<close> on an object that the code has made with \<^verbatim>\<open>{}\<close>
  (\<^verbatim>\<open>convertedObject.fields[prop] = ...\<close>, \<^verbatim>\<open>convertedObject[prop] = ...\<close>). For the name
  \<^verbatim>\<open>__proto__\<close> the assignment runs the setter that the object inherits from
  \<^verbatim>\<open>Object.prototype\<close>: the object gets no own property. (The setter makes \<open>v\<close> the
  prototype of the object when \<open>v\<close> is an object or null. The model keeps the own
  properties only: what an object inherits, the guarded loops of this code skip.)
\<close>

definition assignProp :: "props \<Rightarrow> string \<Rightarrow> js \<Rightarrow> props" where
  "assignProp target k v = (if k = ''__proto__'' then target else setProp target k v)"

text \<open>
  \<^verbatim>\<open>x.k\<close> for a value \<open>x\<close> that is neither null nor undefined. Only a plain object has
  properties of the names this code reads (\<^verbatim>\<open>kind\<close>, \<^verbatim>\<open>fields\<close>, \<^verbatim>\<open>stringify\<close>,
  \<^verbatim>\<open>code\<close>, ...); on any other value such a read gives undefined.
\<close>

fun getProp :: "js \<Rightarrow> string \<Rightarrow> js" where
  "getProp (JObject ps) k = (case map_of ps k of None \<Rightarrow> JUndefined | Some v \<Rightarrow> v)"
| "getProp _ k = JUndefined"

fun typeof :: "js \<Rightarrow> string" where
  "typeof JUndefined = ''undefined''"
| "typeof JNull = ''object''"
| "typeof (JNumber n) = ''number''"
| "typeof (JString s) = ''string''"
| "typeof (JBoolean b) = ''boolean''"
| "typeof (JBuffer b) = ''object''"
| "typeof (JObject ps) = ''object''"
| "typeof (JArray xs) = ''object''"
| "typeof (JOther ty s) = ty"

text \<open>
  The call \<^verbatim>\<open>obj.hasOwnProperty(prop)\<close> for a name \<open>prop\<close> that \<^verbatim>\<open>for (prop in obj)\<close>
  visits. The method is looked up on the object first: an own property named
  \<^verbatim>\<open>hasOwnProperty\<close> hides the method of \<^verbatim>\<open>Object.prototype\<close>, and the call throws a
  TypeError when the value of that property is not a function. When it is a function, the
  code calls it; the model does not know what a function does and stops with
  \<open>NotModelled\<close>. Otherwise the inherited method answers, and a name that the loop visits
  is an own property. Arrays, strings and Buffers have no own property of that name.
\<close>

fun hasOwnProperty :: "js \<Rightarrow> string \<Rightarrow> error + bool" where
  "hasOwnProperty (JObject ps) prop =
     (case map_of ps ''hasOwnProperty'' of
        None \<Rightarrow> Inr True
      | Some f \<Rightarrow> if typeof f = ''function'' then Inl NotModelled else Inl TypeError)"
| "hasOwnProperty obj prop = Inr True"

subsection \<open>Conversion to a string\<close>

fun digit :: "nat \<Rightarrow> char" where
  "digit n = char_of (48 + n)"

function string_of_nat :: "nat \<Rightarrow> string" where
  "string_of_nat n =
     (if n < 10 then [digit n] else string_of_nat (n div 10) @ [digit (n mod 10)])"
  by pat_completeness auto
termination
  by (relation "measure id") auto

definition string_of_int :: "int \<Rightarrow> string" where
  "string_of_int i =
     (if i < 0 then CHR ''-'' # string_of_nat (nat (- i)) else string_of_nat (nat i))"

fun join :: "string list \<Rightarrow> string" where
  "join [] = []"
| "join [s] = s"
| "join (s # t # ss) = s @ CHR '','' # join (t # ss)"

text \<open>\<^verbatim>\<open>String(value)\<close>, which is also how a value used as a property key is read.\<close>

fun String :: "js \<Rightarrow> string" where
  "String JUndefined = ''undefined''"
| "String JNull = ''null''"
| "String (JNumber n) = string_of_int n"
| "String (JString s) = s"
| "String (JBoolean b) = (if b then ''true'' else ''false'')"
| "String (JBuffer b) = map char_of b"
| "String (JObject ps) = ''[object Object]''"
| "String (JArray xs) =
     join (map (\<lambda>x. if x = JNull \<or> x = JUndefined then [] else String x) xs)"
| "String (JOther ty s) = s"

section \<open>The value codec: encoding\<close>

text \<open>\<^verbatim>\<open>options = options || {}\<close>\<close>

definition or_empty :: "js \<Rightarrow> js" where
  "or_empty options = (if truthy options then options else JObject [])"

text \<open>
  The last branch of \<^verbatim>\<open>encodeValue_\<close>, reached by a value that is none of null, number,
  string, boolean, Buffer, plain object and array.
\<close>

definition unrecognized :: "js \<Rightarrow> js \<Rightarrow> error + js" where
  "unrecognized v options =
     (if \<not> truthy (getProp options ''stringify'')
      then Inl (Error (''Value of type '' @ typeof v @ '' not recognized.''))
      else Inr (JObject [(''stringValue'', JString (String v))]))"

text \<open>
  \<^verbatim>\<open>encodeValue_\<close> and \<^verbatim>\<open>objToStruct_\<close> call each other. \<open>objToStruct_loop obj ps\<close> is
  the \<^verbatim>\<open>for (var prop in obj)\<close> loop at the properties \<open>ps\<close> still to visit, with
  \<^verbatim>\<open>convertedObject.fields\<close> as its accumulator; each round calls
  \<^verbatim>\<open>obj.hasOwnProperty(prop)\<close> first and assigns \<^verbatim>\<open>fields[prop]\<close> last;
  \<open>encodeValue_map\<close> is \<^verbatim>\<open>value.map(GrpcService.encodeValue_)\<close>, where
  \<^verbatim>\<open>Array.prototype.map\<close> calls its function with the element and its index, so that the
  index arrives as \<^verbatim>\<open>options\<close>. The nested call \<^verbatim>\<open>GrpcService.objToStruct_(value)\<close> has no
  second argument: its \<^verbatim>\<open>options\<close> is undefined. A \<^verbatim>\<open>throw\<close> is the result \<open>Inl\<close>.
\<close>

fun encodeValue :: "js \<Rightarrow> js \<Rightarrow> error + js"
and objToStruct :: "props \<Rightarrow> js \<Rightarrow> error + js"
and objToStruct_loop :: "props \<Rightarrow> props \<Rightarrow> js \<Rightarrow> props \<Rightarrow> error + props"
and encodeValue_map :: "js list \<Rightarrow> nat \<Rightarrow> error + js list"
where
  "encodeValue JNull options = Inr (JObject [(''nullValue'', JNumber 0)])"
| "encodeValue (JNumber n) options = Inr (JObject [(''numberValue'', JNumber n)])"
| "encodeValue (JString s) options = Inr (JObject [(''stringValue'', JString s)])"
| "encodeValue (JBoolean b) options = Inr (JObject [(''boolValue'', JBoolean b)])"
| "encodeValue (JBuffer b) options = Inr (JObject [(''blobValue'', JBuffer b)])"
| "encodeValue (JObject ps) options =
     (case objToStruct ps JUndefined of
        Inl e \<Rightarrow> Inl e
      | Inr s \<Rightarrow> Inr (JObject [(''structValue'', s)]))"
| "encodeValue (JArray xs) options =
     (case encodeValue_map xs 0 of
        Inl e \<Rightarrow> Inl e
      | Inr ys \<Rightarrow> Inr (JObject [(''listValue'', JObject [(''values'', JArray ys)])]))"
| "encodeValue JUndefined options = unrecognized JUndefined (or_empty options)"
| "encodeValue (JOther ty s) options = unrecognized (JOther ty s) (or_empty options)"
| "objToStruct obj options =
     (case objToStruct_loop obj obj (or_empty options) [] of
        Inl e \<Rightarrow> Inl e
      | Inr convertedFields \<Rightarrow> Inr (JObject [(''fields'', JObject convertedFields)]))"
| "objToStruct_loop obj [] options convertedFields = Inr convertedFields"
| "objToStruct_loop obj ((prop, v) # ps) options convertedFields =
     (case hasOwnProperty (JObject obj) prop of
        Inl e \<Rightarrow> Inl e
      | Inr own \<Rightarrow>
          if \<not> own \<or> v = JUndefined then objToStruct_loop obj ps options convertedFields
          else (case encodeValue v options of
                  Inl e \<Rightarrow> Inl e
                | Inr c \<Rightarrow>
                    objToStruct_loop obj ps options (assignProp convertedFields prop c)))"
| "encodeValue_map [] i = Inr []"
| "encodeValue_map (x # xs) i =
     (case encodeValue x (JNumber (int i)) of
        Inl e \<Rightarrow> Inl e
      | Inr y \<Rightarrow>
          (case encodeValue_map xs (Suc i) of
             Inl e \<Rightarrow> Inl e
           | Inr ys \<Rightarrow> Inr (y # ys)))"

text \<open>The types that \<^verbatim>\<open>encodeValue_\<close> recognises.\<close>

fun recognized :: "js \<Rightarrow> bool" where
  "recognized JUndefined = False"
| "recognized (JOther ty s) = False"
| "recognized _ = True"

text \<open>
  The values that are built from recognised types only. An undefined property of an object
  is admitted, since \<^verbatim>\<open>objToStruct_\<close> skips it; an undefined array element is not.
\<close>

fun encodable :: "js \<Rightarrow> bool" where
  "encodable (JObject ps) = (\<forall>v \<in> snd ` set ps. v = JUndefined \<or> encodable v)"
| "encodable (JArray xs) = (\<forall>x \<in> set xs. encodable x)"
| "encodable JUndefined = False"
| "encodable (JOther ty s) = False"
| "encodable _ = True"

text \<open>
  The values in which no object has a property named \<^verbatim>\<open>hasOwnProperty\<close> or
  \<^verbatim>\<open>__proto__\<close>.
\<close>

fun ordinary :: "js \<Rightarrow> bool" where
  "ordinary (JObject ps) =
     (''hasOwnProperty'' \<notin> fst ` set ps \<and> ''__proto__'' \<notin> fst ` set ps \<and>
      (\<forall>v \<in> snd ` set ps. ordinary v))"
| "ordinary (JArray xs) = (\<forall>x \<in> set xs. ordinary x)"
| "ordinary _ = True"

text \<open>
  The values in which no object holds a function under the name \<^verbatim>\<open>hasOwnProperty\<close>: on
  these the model computes every step of the code, and a result \<open>Inl e\<close> is a \<^verbatim>\<open>throw\<close>.
\<close>

fun guarded :: "js \<Rightarrow> bool" where
  "guarded (JObject ps) =
     ((case map_of ps ''hasOwnProperty'' of None \<Rightarrow> True | Some f \<Rightarrow> typeof f \<noteq> ''function'') \<and>
      (\<forall>v \<in> snd ` set ps. guarded v))"
| "guarded (JArray xs) = (\<forall>x \<in> set xs. guarded x)"
| "guarded _ = True"

text \<open>Whether the \<^verbatim>\<open>stringify\<close> option is on once \<^verbatim>\<open>options || {}\<close> is taken.\<close>

definition stringify :: "js \<Rightarrow> bool" where
  "stringify options = truthy (getProp (or_empty options) ''stringify'')"

text \<open>The error that the last branch of \<^verbatim>\<open>encodeValue_\<close> throws.\<close>

definition not_recognized_error :: "error \<Rightarrow> bool" where
  "not_recognized_error e = (\<exists>t. e = Error (''Value of type '' @ t @ '' not recognized.''))"

section \<open>The value codec: decoding\<close>

text \<open>The values on which a property read throws a TypeError.\<close>

fun nullish :: "js \<Rightarrow> bool" where
  "nullish JUndefined = True"
| "nullish JNull = True"
| "nullish _ = False"

text \<open>
  The own properties that \<^verbatim>\<open>for (var prop in x)\<close> visits: the properties of a plain
  object, the indices of an array, of a string and of a Buffer, and nothing for any other
  value (for null and undefined the loop has no round).
\<close>

fun forIn :: "js \<Rightarrow> props" where
  "forIn (JObject ps) = ps"
| "forIn (JArray xs) = zip (map string_of_nat [0..<length xs]) xs"
| "forIn (JString s) = zip (map string_of_nat [0..<length s]) (map (\<lambda>c. JString [c]) s)"
| "forIn (JBuffer b) = zip (map string_of_nat [0..<length b]) (map (\<lambda>n. JNumber (int n)) b)"
| "forIn _ = []"

text \<open>The measure for the termination of the decoder.\<close>

definition total_size :: "js list \<Rightarrow> nat" where
  "total_size xs = sum_list (map size xs)"

lemma total_size_simps [simp]:
  "total_size [] = 0" "total_size (x # xs) = size x + total_size xs"
  by (simp_all add: total_size_def)

lemma size_props: "total_size (map snd ps) < size (JObject ps)"
  by (induction ps) auto

lemma size_elems: "total_size xs < size (JArray xs)"
  by (induction xs) auto

lemma total_size_zip: "total_size (map snd (zip ks xs)) \<le> total_size xs"
proof (induction xs arbitrary: ks)
  case Nil
  then show ?case by simp
next
  case (Cons x xs)
  then show ?case by (cases ks) (auto intro: le_trans)
qed

lemma size_getProp: "size (getProp v k) \<le> size v"
proof (cases v)
  case (JObject ps)
  have "map_of ps k = Some w \<Longrightarrow> size w < size (JObject ps)" for w
    by (induction ps) (auto split: if_splits)
  with JObject show ?thesis by (auto split: option.splits intro: less_imp_le)
qed simp_all

lemma size_getProp_object: "size (getProp (JObject ps) k) < size (JObject ps)"
proof -
  have "map_of ps k = Some w \<Longrightarrow> size w < size (JObject ps)" for w
    by (induction ps) (auto split: if_splits)
  then show ?thesis by (auto split: option.splits)
qed

lemma total_size_chars: "total_size (map (\<lambda>c. JString [c]) s) = 0"
  by (induction s) auto

lemma total_size_bytes: "total_size (map (\<lambda>n. JNumber (int n)) b) = 0"
  by (induction b) auto

lemma size_forIn: "total_size (map snd (forIn v)) \<le> size v"
proof (cases v)
  case (JObject ps)
  then show ?thesis using size_props [of ps] by simp
next
  case (JArray xs)
  then show ?thesis using size_elems [of xs] total_size_zip [of "map string_of_nat [0..<length xs]" xs]
    by simp
next
  case (JString s)
  then show ?thesis
    using total_size_zip [of "map string_of_nat [0..<length s]" "map (\<lambda>c. JString [c]) s"]
    by (simp add: total_size_chars)
next
  case (JBuffer b)
  then show ?thesis
    using total_size_zip [of "map string_of_nat [0..<length b]" "map (\<lambda>n. JNumber (int n)) b"]
    by (simp add: total_size_bytes)
qed simp_all

lemma kind_object: "getProp v k = JString s \<Longrightarrow> \<exists>ps. v = JObject ps"
  by (cases v) simp_all

text \<open>
  \<^verbatim>\<open>decodeValue_\<close> and \<^verbatim>\<open>structToObj_\<close> call each other. The \<^verbatim>\<open>switch\<close> compares
  \<^verbatim>\<open>value.kind\<close> with the three names by \<^verbatim>\<open>===\<close>; its default is
  \<^verbatim>\<open>value[value.kind]\<close>, which reads the property named by the string of
  \<^verbatim>\<open>value.kind\<close>. An array has the method \<^verbatim>\<open>map\<close>; so has a Buffer, whose bytes
  decode to undefined, which a Buffer stores as 0; on any other value the call of
  \<^verbatim>\<open>map\<close> throws. \<open>structToObj_loop structFields ps\<close> is the
  \<^verbatim>\<open>for (var prop in struct.fields)\<close> loop at the properties \<open>ps\<close> still to visit, with
  \<^verbatim>\<open>convertedObject\<close> as its accumulator; each round calls
  \<^verbatim>\<open>struct.fields.hasOwnProperty(prop)\<close> first and assigns \<^verbatim>\<open>convertedObject[prop]\<close>
  last.
\<close>

function decodeValue :: "js \<Rightarrow> error + js"
and structToObj :: "js \<Rightarrow> error + js"
and structToObj_loop :: "js \<Rightarrow> props \<Rightarrow> props \<Rightarrow> error + props"
and decodeValue_map :: "js list \<Rightarrow> error + js list"
where
  "decodeValue v =
     (if nullish v then Inl TypeError
      else if getProp v ''kind'' = JString ''structValue''
        then structToObj (getProp v ''structValue'')
      else if getProp v ''kind'' = JString ''nullValue''
        then Inr JNull
      else if getProp v ''kind'' = JString ''listValue''
        then (if nullish (getProp v ''listValue'') then Inl TypeError
              else case getProp (getProp v ''listValue'') ''values'' of
                     JArray xs \<Rightarrow>
                       (case decodeValue_map xs of
                          Inl e \<Rightarrow> Inl e
                        | Inr ys \<Rightarrow> Inr (JArray ys))
                   | JBuffer b \<Rightarrow> Inr (JBuffer (map (\<lambda>n. 0) b))
                   | _ \<Rightarrow> Inl TypeError)
      else Inr (getProp v (String (getProp v ''kind''))))"
| "structToObj struct =
     (if nullish struct then Inl TypeError
      else case structToObj_loop (getProp struct ''fields'')
                  (forIn (getProp struct ''fields'')) [] of
             Inl e \<Rightarrow> Inl e
           | Inr convertedObject \<Rightarrow> Inr (JObject convertedObject))"
| "structToObj_loop structFields [] convertedObject = Inr convertedObject"
| "structToObj_loop structFields ((prop, v) # ps) convertedObject =
     (case hasOwnProperty structFields prop of
        Inl e \<Rightarrow> Inl e
      | Inr own \<Rightarrow>
          if \<not> own then structToObj_loop structFields ps convertedObject
          else (case decodeValue v of
                  Inl e \<Rightarrow> Inl e
                | Inr d \<Rightarrow>
                    structToObj_loop structFields ps (assignProp convertedObject prop d)))"
| "decodeValue_map [] = Inr []"
| "decodeValue_map (x # xs) =
     (case decodeValue x of
        Inl e \<Rightarrow> Inl e
      | Inr y \<Rightarrow>
          (case decodeValue_map xs of
             Inl e \<Rightarrow> Inl e
           | Inr ys \<Rightarrow> Inr (y # ys)))"
  by pat_completeness auto

termination
proof (relation "measures
    [\<lambda>x. case x of
        Inl (Inl v) \<Rightarrow> size v
      | Inl (Inr s) \<Rightarrow> size s
      | Inr (Inl (structFields, ps, co)) \<Rightarrow> total_size (map snd ps)
      | Inr (Inr xs) \<Rightarrow> total_size xs,
     \<lambda>x. case x of
        Inl (Inl v) \<Rightarrow> 0
      | Inl (Inr s) \<Rightarrow> 2
      | Inr (Inl (structFields, ps, co)) \<Rightarrow> 1
      | Inr (Inr xs) \<Rightarrow> 1,
     \<lambda>x. case x of
        Inl (Inl v) \<Rightarrow> 0
      | Inl (Inr s) \<Rightarrow> 0
      | Inr (Inl (structFields, ps, co)) \<Rightarrow> length ps
      | Inr (Inr xs) \<Rightarrow> length xs]", goal_cases)
  case 1
  then show ?case by simp
next
  case (2 v)
  then obtain ps where "v = JObject ps" using kind_object by blast
  then show ?case using size_getProp_object [of ps "''structValue''"] by simp
next
  case (3 v xs)
  then obtain ps where v: "v = JObject ps" using kind_object by blast
  have "size (JArray xs) \<le> size (getProp v ''listValue'')"
    using 3 size_getProp [of "getProp v ''listValue''" "''values''"] by simp
  also have "\<dots> < size v" using v size_getProp_object [of ps "''listValue''"] by simp
  finally show ?case using size_elems [of xs] by simp
next
  case (4 struct)
  have "total_size (map snd (forIn (getProp struct ''fields''))) \<le> size (getProp struct ''fields'')"
    by (rule size_forIn)
  also have "\<dots> \<le> size struct" by (rule size_getProp)
  finally show ?case by auto
qed auto

text \<open>
  Modelled from the spec: the protobuf layer (the packages \<^verbatim>\<open>grpc\<close> and
  \<^verbatim>\<open>protobufjs\<close>), which delivers the messages that \<^verbatim>\<open>decodeValue_\<close> reads, is not in
  the sources. The spec has of the wire format that "every non-null leaf carries exactly
  one type tag" and that decoding "dispatches on the leaf's tag"; in the source the tag
  is the property \<^verbatim>\<open>kind\<close>, which holds the name of the member that is set
  (\<^verbatim>\<open>switch (value.kind)\<close>, \<^verbatim>\<open>value[value.kind]\<close>, and the example
  \<^verbatim>\<open>{kind: 'stringValue', stringValue: 'Stephen'}\<close> in the doc comment of
  \<^verbatim>\<open>structToObj_\<close>). \<open>addKind\<close> gives that property to a message that has one member,
  as \<^verbatim>\<open>encodeValue_\<close> builds it, and to the messages under \<^verbatim>\<open>structValue.fields\<close> and
  \<^verbatim>\<open>listValue.values\<close>; \<open>addKind_struct\<close> does so for the fields of a Struct. Nothing in
  \<^verbatim>\<open>grpc-service.js\<close> does this step: \<open>roundTrip\<close> below is the composition that the
  code itself computes, without it.
\<close>

fun addKind :: "js \<Rightarrow> js"
and addKind_fields :: "props \<Rightarrow> props"
and addKind_values :: "js list \<Rightarrow> js list"
where
  "addKind (JObject [(tag, JObject [(k, JObject fs)])]) =
     JObject [(''kind'', JString tag),
       (tag, JObject [(k, JObject (if tag = ''structValue'' \<and> k = ''fields''
                                    then addKind_fields fs else fs))])]"
| "addKind (JObject [(tag, JObject [(k, JArray ys)])]) =
     JObject [(''kind'', JString tag),
       (tag, JObject [(k, JArray (if tag = ''listValue'' \<and> k = ''values''
                                   then addKind_values ys else ys))])]"
| "addKind (JObject [(tag, payload)]) = JObject [(''kind'', JString tag), (tag, payload)]"
| "addKind v = v"
| "addKind_fields [] = []"
| "addKind_fields ((name, v) # fs) = (name, addKind v) # addKind_fields fs"
| "addKind_values [] = []"
| "addKind_values (v # vs) = addKind v # addKind_values vs"

text \<open>
  The values built from null, numbers, strings, booleans, Buffers, plain objects and
  arrays only, with no undefined property.
\<close>

fun plain :: "js \<Rightarrow> bool" where
  "plain (JObject ps) = (distinct (map fst ps) \<and> (\<forall>v \<in> snd ` set ps. plain v))"
| "plain (JArray xs) = (\<forall>x \<in> set xs. plain x)"
| "plain JUndefined = False"
| "plain (JOther ty s) = False"
| "plain _ = True"

fun addKind_struct :: "js \<Rightarrow> js" where
  "addKind_struct (JObject [(k, JObject fs)]) =
     JObject [(k, JObject (if k = ''fields'' then addKind_fields fs else fs))]"
| "addKind_struct s = s"

text \<open>\<^verbatim>\<open>structToObj_(objToStruct_(v, {}))\<close>\<close>

definition roundTrip :: "props \<Rightarrow> error + js" where
  "roundTrip v = (case objToStruct v (JObject []) of Inl e \<Rightarrow> Inl e | Inr s \<Rightarrow> structToObj s)"

section \<open>The error translator and the retry predicate\<close>

text \<open>
  The table \<^verbatim>\<open>GRPC_ERROR_CODE_TO_HTTP\<close>: an object whose property names are the gRPC
  status codes 0 to 16 and whose values are objects \<^verbatim>\<open>{code: ..., message: ...}\<close>.
\<close>

definition entry :: "int \<Rightarrow> string \<Rightarrow> js" where
  "entry c m = JObject [(''code'', JNumber c), (''message'', JString m)]"

definition GRPC_ERROR_CODE_TO_HTTP :: props where
  "GRPC_ERROR_CODE_TO_HTTP =
    [(''0'', entry 200 ''OK''),
     (''1'', entry 499 ''Client Closed Request''),
     (''2'', entry 500 ''Internal Server Error''),
     (''3'', entry 400 ''Bad Request''),
     (''4'', entry 504 ''Gateway Timeout''),
     (''5'', entry 404 ''Not Found''),
     (''6'', entry 409 ''Conflict''),
     (''7'', entry 403 ''Forbidden''),
     (''8'', entry 429 ''Too Many Requests''),
     (''9'', entry 412 ''Precondition Failed''),
     (''10'', entry 409 ''Conflict''),
     (''11'', entry 400 ''Bad Request''),
     (''12'', entry 501 ''Not Implemented''),
     (''13'', entry 500 ''Internal Server Error''),
     (''14'', entry 503 ''Service Unavailable''),
     (''15'', entry 500 ''Internal Server Error''),
     (''16'', entry 401 ''Unauthorized'')]"

text \<open>
  Modelled from the spec: the package \<^verbatim>\<open>extend\<close> is not in the sources. As the spec
  describes the result of \<^verbatim>\<open>extend(true, {}, err, entry)\<close>: the target receives the
  properties of each source in turn, a later source overriding an earlier one. The copy
  is deep, which a model of values does not distinguish from a shallow copy. (The
  package leaves out a property whose value is undefined; such a property reads as
  undefined in the copy either way.)
\<close>

fun assign :: "props \<Rightarrow> props \<Rightarrow> props" where
  "assign target [] = target"
| "assign target ((name, copy) # ps) = assign (setProp target name copy) ps"

definition extend :: "props \<Rightarrow> js list \<Rightarrow> props" where
  "extend target sources = foldl (\<lambda>t s. assign t (forIn s)) target sources"

text \<open>
  \<^verbatim>\<open>getError_\<close>: \<^verbatim>\<open>GRPC_ERROR_CODE_TO_HTTP[err.code]\<close> reads the property named by the
  string of \<^verbatim>\<open>err.code\<close>.
\<close>

definition getError :: "js \<Rightarrow> error + js" where
  "getError err =
     (if nullish err then Inl TypeError
      else if truthy (getProp (JObject GRPC_ERROR_CODE_TO_HTTP) (String (getProp err ''code'')))
        then Inr (JObject (extend [] [err,
               getProp (JObject GRPC_ERROR_CODE_TO_HTTP) (String (getProp err ''code''))]))
      else Inr JNull)"

text \<open>\<^verbatim>\<open>Array.prototype.indexOf\<close>, which compares with \<^verbatim>\<open>===\<close>, and \<^verbatim>\<open>shouldRetryRequest_\<close>.\<close>

fun indexOf :: "js list \<Rightarrow> js \<Rightarrow> int" where
  "indexOf [] x = - 1"
| "indexOf (y # ys) x = (if y = x then 0 else if indexOf ys x = - 1 then - 1 else indexOf ys x + 1)"

definition shouldRetryRequest :: "js \<Rightarrow> error + bool" where
  "shouldRetryRequest response =
     (if nullish response then Inl TypeError
      else Inr (indexOf [JNumber 429, JNumber 500, JNumber 502, JNumber 503]
                  (getProp response ''code'') > - 1))"

text \<open>Reading a decimal numeral back, to tell which strings name a row of the table.\<close>

definition nat_of_string :: "string \<Rightarrow> nat" where
  "nat_of_string s = foldl (\<lambda>a c. 10 * a + (of_char c - 48)) 0 s"

section \<open>The service registry\<close>

text \<open>
  The constructor: \<^verbatim>\<open>customEndpoint\<close> sets insecure credentials at once; the loaded proto
  namespaces (the results of \<^verbatim>\<open>loadProtoFile_\<close>) and \<^verbatim>\<open>options.maxRetries\<close> are given.
\<close>

definition GrpcService ::
  "config \<Rightarrow> nat \<Rightarrow> (string \<Rightarrow> (string \<Rightarrow> string option) option) \<Rightarrow> grpc_service" where
  "GrpcService cfg retries loaded =
     \<lparr>baseUrl = config_baseUrl cfg,
      service = config_service cfg,
      maxRetries = retries,
      grpcCredentials = (if config_customEndpoint cfg then Some Insecure else None),
      protos = loaded,
      activeServiceMap = Map.empty,
      constructed = 0,
      authCalls = 0\<rparr>"

text \<open>
  \<^verbatim>\<open>getService_\<close>. A namespace and a service object are truthy. \<^verbatim>\<open>proto[name]\<close> on an
  undefined \<^verbatim>\<open>proto\<close>, and \<^verbatim>\<open>new\<close> of an undefined class, throw a TypeError.
\<close>

definition proto_for :: "grpc_service \<Rightarrow> string \<Rightarrow> (string \<Rightarrow> string option) option" where
  "proto_for this name =
     (case protos this name of
        Some p \<Rightarrow> Some p
      | None \<Rightarrow> protos this (service this))"

definition getService :: "grpc_service \<Rightarrow> string \<Rightarrow> error + stub \<times> grpc_service" where
  "getService this name =
     (let proto = proto_for this name
      in case activeServiceMap this name of
           Some s \<Rightarrow> Inr (s, this)
         | None \<Rightarrow>
             (case proto of
                None \<Rightarrow> Inl TypeError
              | Some p \<Rightarrow>
                  (case p name of
                     None \<Rightarrow> Inl TypeError
                   | Some cls \<Rightarrow>
                       (let s = \<lparr>stub_class = cls, stub_url = baseUrl this,
                                 stub_credentials = grpcCredentials this,
                                 stub_serial = constructed this\<rparr>
                        in Inr (s, this\<lparr>activeServiceMap := (activeServiceMap this)(name \<mapsto> s),
                                        constructed := Suc (constructed this)\<rparr>)))))"

section \<open>The unary call\<close>

text \<open>
  The values that pass through the retry layer, with the identity that
  \<^verbatim>\<open>resp === respError\<close> tests: \<open>Made k v\<close> is the object, of contents \<open>v\<close>, that
  \<^verbatim>\<open>getError_\<close> created in attempt \<open>k\<close>; \<open>Given v\<close> is a value that comes from outside
  (from the stub, or the literal null), which is never that object. \<^verbatim>\<open>respError\<close> is null
  or a \<open>Made\<close> object, so that \<^verbatim>\<open>===\<close> with it is equality of these values.
\<close>

datatype val = Given js | Made nat js

fun truthy_val :: "val \<Rightarrow> bool" where
  "truthy_val (Given v) = truthy v"
| "truthy_val (Made k v) = True"

fun contents :: "val \<Rightarrow> js" where
  "contents (Given v) = v"
| "contents (Made k v) = v"

text \<open>
  The function \<^verbatim>\<open>request\<close> of \<^verbatim>\<open>retryOpts\<close>, for the attempt number \<open>k\<close>, given the
  \<^verbatim>\<open>(err, resp)\<close> with which the stub's method calls back: it sets \<^verbatim>\<open>respError\<close> and
  calls \<^verbatim>\<open>onResponse\<close>. The result is \<^verbatim>\<open>respError\<close> and the two arguments of
  \<^verbatim>\<open>onResponse\<close>.
\<close>

definition attempt :: "nat \<Rightarrow> js \<times> js \<Rightarrow> error + val \<times> val \<times> val" where
  "attempt k answer =
     (case answer of (err, resp) \<Rightarrow>
        if truthy err then
          (case getError err of
             Inl e \<Rightarrow> Inl e
           | Inr respError \<Rightarrow>
               if truthy respError
               then Inr (Made k respError, Given JNull, Made k respError)
               else Inr (Given respError, Given err, Given resp))
        else Inr (Given JNull, Given JNull, Given resp))"

text \<open>
  Modelled from the spec: the package \<^verbatim>\<open>retry-request\<close> is not in the sources. As the
  spec describes it: an error handed to \<^verbatim>\<open>onResponse\<close> ends the call at once; a response
  is retried while attempts are left and \<^verbatim>\<open>shouldRetryFn(response)\<close> holds (the test is
  not made when no attempt is left); otherwise the response is final. \<open>rpc k\<close> is what
  the stub's method answers in attempt \<open>k\<close>; delays are not modelled. The result is
  \<^verbatim>\<open>respError\<close>, the two arguments of the final callback, and the number of attempts.
\<close>

fun retry_loop :: "nat \<Rightarrow> (nat \<Rightarrow> js \<times> js) \<Rightarrow> nat \<Rightarrow> error + val \<times> val \<times> val \<times> nat" where
  "retry_loop 0 rpc k =
     (case attempt k (rpc k) of
        Inl e \<Rightarrow> Inl e
      | Inr (respError, err, resp) \<Rightarrow> Inr (respError, err, resp, k))"
| "retry_loop (Suc left) rpc k =
     (case attempt k (rpc k) of
        Inl e \<Rightarrow> Inl e
      | Inr (respError, err, resp) \<Rightarrow>
          if truthy_val err then Inr (respError, err, resp, k)
          else (case shouldRetryRequest (contents resp) of
                  Inl e \<Rightarrow> Inl e
                | Inr again \<Rightarrow>
                    if again then retry_loop left rpc (Suc k)
                    else Inr (respError, err, resp, k)))"

definition retryRequest :: "nat \<Rightarrow> (nat \<Rightarrow> js \<times> js) \<Rightarrow> error + val \<times> val \<times> val \<times> nat" where
  "retryRequest retries rpc = retry_loop retries rpc 1"

text \<open>The callback given to \<^verbatim>\<open>retryRequest\<close>; the result is the arguments of \<^verbatim>\<open>callback\<close>.\<close>

definition finish :: "val \<Rightarrow> val \<Rightarrow> val \<Rightarrow> val \<times> val" where
  "finish respError err resp =
     (if \<not> truthy_val err \<and> resp = respError then (respError, Given JNull) else (err, resp))"

text \<open>
  \<^verbatim>\<open>request\<close> once the credentials are there. The pagination options that it deletes and
  the deadline go to the stub, whose answers are given by \<open>rpc\<close>.
\<close>

definition request_authenticated ::
  "grpc_service \<Rightarrow> string \<Rightarrow> (nat \<Rightarrow> js \<times> js) \<Rightarrow> grpc_service \<times> (error + val \<times> val)" where
  "request_authenticated this name rpc =
     (case getService this name of
        Inl e \<Rightarrow> (this, Inl e)
      | Inr (svc, this') \<Rightarrow>
          (case retryRequest (maxRetries this') rpc of
             Inl e \<Rightarrow> (this', Inl e)
           | Inr (respError, err, resp, n) \<Rightarrow> (this', Inr (finish respError err resp))))"

text \<open>
  \<^verbatim>\<open>request\<close>. \<open>getAuthClient k\<close> is what the credential provider answers to its call
  number \<open>k\<close>: an error (falsy when there is none) and an auth client. After a successful
  acquisition \<^verbatim>\<open>self.request\<close> is called again and finds the credentials set.
  \<^verbatim>\<open>callback(err)\<close> leaves the response undefined. The result is the instance afterwards
  and the arguments of the callback, or the exception thrown.
\<close>

definition request ::
  "(nat \<Rightarrow> js \<times> nat) \<Rightarrow> grpc_service \<Rightarrow> string \<Rightarrow> (nat \<Rightarrow> js \<times> js) \<Rightarrow>
     grpc_service \<times> (error + val \<times> val)" where
  "request getAuthClient this name rpc =
     (case grpcCredentials this of
        None \<Rightarrow>
          (case getAuthClient (authCalls this) of (err, authClient) \<Rightarrow>
             if truthy err
             then (this\<lparr>authCalls := Suc (authCalls this)\<rparr>, Inr (Given err, Given JUndefined))
             else request_authenticated
                    (this\<lparr>authCalls := Suc (authCalls this),
                          grpcCredentials := Some (Combine Ssl (FromGoogleCredential authClient))\<rparr>)
                    name rpc)
      | Some c \<Rightarrow> request_authenticated this name rpc)"

text \<open>A sequence of calls on one instance, each running to its end before the next.\<close>

fun getServices :: "grpc_service \<Rightarrow> string list \<Rightarrow> grpc_service" where
  "getServices this [] = this"
| "getServices this (name # names) =
     getServices (case getService this name of Inl e \<Rightarrow> this | Inr (s, this') \<Rightarrow> this') names"

fun requests ::
  "(nat \<Rightarrow> js \<times> nat) \<Rightarrow> grpc_service \<Rightarrow> (string \<times> (nat \<Rightarrow> js \<times> js)) list \<Rightarrow> grpc_service" where
  "requests getAuthClient this [] = this"
| "requests getAuthClient this ((name, rpc) # rs) =
     requests getAuthClient (fst (request getAuthClient this name rpc)) rs"

text \<open>
  Three stubs: one that always fails with a code that the table does not have, one that
  fails twice with code 8 and then succeeds, one that always fails with code 5.
\<close>

definition unmapped :: "nat \<Rightarrow> js \<times> js" where
  "unmapped k = (JObject [(''code'', JNumber 17)], JUndefined)"

definition flaky :: "nat \<Rightarrow> js \<times> js" where
  "flaky k = (if k \<le> 2 then (JObject [(''code'', JNumber 8)], JUndefined)
              else (JNull, JObject [(''ok'', JBoolean True)]))"

definition not_found :: "nat \<Rightarrow> js \<times> js" where
  "not_found k = (JObject [(''code'', JNumber 5)], JUndefined)"

text \<open>An instance, and a credential provider that fails once and then succeeds.\<close>

definition pubsub :: grpc_service where
  "pubsub = GrpcService
     \<lparr>config_baseUrl = ''pubsub.googleapis.com'', config_service = ''pubsub'',
      config_customEndpoint = False\<rparr>
     2 [''pubsub'' \<mapsto> [''Publisher'' \<mapsto> ''Publisher'', ''Subscriber'' \<mapsto> ''Subscriber'']]"

definition fails_once :: "nat \<Rightarrow> js \<times> nat" where
  "fails_once k = (if k = 0 then (JObject [(''message'', JString ''Could not load credentials'')], 0)
                   else (JNull, 7))"

text \<open>The number of objects constructed is the number of names in the cache.\<close>

definition counted :: "grpc_service \<Rightarrow> bool" where
  "counted this =
     (finite (dom (activeServiceMap this)) \<and>
      constructed this = card (dom (activeServiceMap this)))"

section \<open>Properties of the encoder\<close>

lemma setProp_keys:
  "map fst (setProp fs k v) = (if k \<in> fst ` set fs then map fst fs else map fst fs @ [k])"
  by (induction fs) (auto simp: rev_image_eqI)

lemma setProp_fresh: "k \<notin> fst ` set fs \<Longrightarrow> setProp fs k v = fs @ [(k, v)]"
  by (induction fs) auto

lemma hasOwnProperty_inherited:
  assumes "''hasOwnProperty'' \<notin> fst ` set obj"
  shows "hasOwnProperty (JObject obj) prop = Inr True"
proof -
  from assms have "map_of obj ''hasOwnProperty'' = None" by (simp add: map_of_eq_None_iff)
  then show ?thesis by simp
qed

lemma hasOwnProperty_answer: "hasOwnProperty obj prop = Inr own \<Longrightarrow> own"
  by (cases obj) (auto split: option.splits if_splits)

declare hasOwnProperty.simps [simp del]

lemma objToStruct_loop_result:
  "objToStruct_loop obj ps options acc = Inr fs \<Longrightarrow>
   ''hasOwnProperty'' \<notin> fst ` set obj \<Longrightarrow> ''__proto__'' \<notin> fst ` set ps \<Longrightarrow>
   distinct (map fst acc @ map fst ps) \<Longrightarrow>
   \<exists>fs'. fs = acc @ fs' \<and>
     list_all2 (\<lambda>p f. fst f = fst p \<and> encodeValue (snd p) options = Inr (snd f))
       (filter (\<lambda>p. snd p \<noteq> JUndefined) ps) fs'"
proof (induction ps arbitrary: acc)
  case Nil
  then show ?case by simp
next
  case (Cons p ps)
  obtain k v where p: "p = (k, v)" by (cases p)
  note own = hasOwnProperty_inherited [OF Cons.prems(2), of k]
  from Cons.prems(3) p have k: "k \<noteq> ''__proto__''" and rest: "''__proto__'' \<notin> fst ` set ps"
    by auto
  show ?case
  proof (cases "v = JUndefined")
    case True
    with Cons.prems p own have "objToStruct_loop obj ps options acc = Inr fs"
      "distinct (map fst acc @ map fst ps)" by simp_all
    from Cons.IH [OF this(1) Cons.prems(2) rest this(2)] True p show ?thesis by simp
  next
    case False
    with Cons.prems(1) p own k obtain c where c: "encodeValue v options = Inr c"
      and l: "objToStruct_loop obj ps options (setProp acc k c) = Inr fs"
      by (auto simp: assignProp_def split: sum.splits)
    from Cons.prems(4) p have "k \<notin> fst ` set acc" by auto
    then have m: "setProp acc k c = acc @ [(k, c)]" by (rule setProp_fresh)
    from Cons.prems(4) p have "distinct (map fst (acc @ [(k, c)]) @ map fst ps)" by simp
    from Cons.IH [OF l [unfolded m] Cons.prems(2) rest this] obtain fs' where
      fs: "fs = (acc @ [(k, c)]) @ fs'" and
      r: "list_all2 (\<lambda>p f. fst f = fst p \<and> encodeValue (snd p) options = Inr (snd f))
            (filter (\<lambda>p. snd p \<noteq> JUndefined) ps) fs'" by blast
    have "fs = acc @ ((k, c) # fs')" using fs by simp
    moreover have "list_all2 (\<lambda>p f. fst f = fst p \<and> encodeValue (snd p) options = Inr (snd f))
            (filter (\<lambda>p. snd p \<noteq> JUndefined) (p # ps)) ((k, c) # fs')"
      using r c False p by simp
    ultimately show ?thesis by blast
  qed
qed

lemma encodable_total:
  "encodable v \<and> ordinary v \<longrightarrow> (\<exists>c. encodeValue v options = Inr c)"
  "''hasOwnProperty'' \<notin> fst ` set obj \<and>
   (\<forall>v \<in> snd ` set obj. (v = JUndefined \<or> encodable v) \<and> ordinary v) \<longrightarrow>
     (\<exists>s. objToStruct obj options = Inr s)"
  "''hasOwnProperty'' \<notin> fst ` set obj \<and>
   (\<forall>v \<in> snd ` set ps. (v = JUndefined \<or> encodable v) \<and> ordinary v) \<longrightarrow>
     (\<exists>fs. objToStruct_loop obj ps options convertedFields = Inr fs)"
  "(\<forall>x \<in> set xs. encodable x \<and> ordinary x) \<longrightarrow> (\<exists>ys. encodeValue_map xs i = Inr ys)"
proof (induction v options and obj options and obj ps options convertedFields and xs i
    rule: encodeValue_objToStruct_objToStruct_loop_encodeValue_map.induct)
  case (12 obj k v ps options convertedFields)
  show ?case
  proof (intro impI)
    assume a: "''hasOwnProperty'' \<notin> fst ` set obj \<and>
      (\<forall>w \<in> snd ` set ((k, v) # ps). (w = JUndefined \<or> encodable w) \<and> ordinary w)"
    then have g: "hasOwnProperty (JObject obj) k = Inr True"
      by (simp add: hasOwnProperty_inherited)
    from a have rest: "''hasOwnProperty'' \<notin> fst ` set obj \<and>
      (\<forall>w \<in> snd ` set ps. (w = JUndefined \<or> encodable w) \<and> ordinary w)" by simp
    show "\<exists>fs. objToStruct_loop obj ((k, v) # ps) options convertedFields = Inr fs"
    proof (cases "v = JUndefined")
      case True
      with "12.IH"(1) [OF g] rest g show ?thesis by simp
    next
      case False
      with a have "encodable v \<and> ordinary v" by simp
      with "12.IH"(2) [OF g] False obtain c where c: "encodeValue v options = Inr c" by auto
      from "12.IH"(3) [OF g _ c] False rest
      obtain fs where "objToStruct_loop obj ps options (assignProp convertedFields k c) = Inr fs"
        by auto
      with g c False show ?thesis by simp
    qed
  qed
qed (auto split: sum.splits)

lemma encode_errors:
  "ordinary v \<longrightarrow> encodeValue v options = Inl e \<longrightarrow> not_recognized_error e"
  "ordinary (JObject obj) \<longrightarrow> objToStruct obj options = Inl e \<longrightarrow> not_recognized_error e"
  "''hasOwnProperty'' \<notin> fst ` set obj \<and> (\<forall>v \<in> snd ` set ps. ordinary v) \<longrightarrow>
     objToStruct_loop obj ps options convertedFields = Inl e \<longrightarrow> not_recognized_error e"
  "(\<forall>x \<in> set xs. ordinary x) \<longrightarrow> encodeValue_map xs i = Inl e \<longrightarrow> not_recognized_error e"
proof (induction v options and obj options and obj ps options convertedFields and xs i
    rule: encodeValue_objToStruct_objToStruct_loop_encodeValue_map.induct)
  case (12 obj k v ps options convertedFields)
  show ?case
  proof (intro impI)
    assume a: "''hasOwnProperty'' \<notin> fst ` set obj \<and> (\<forall>w \<in> snd ` set ((k, v) # ps). ordinary w)"
      and l: "objToStruct_loop obj ((k, v) # ps) options convertedFields = Inl e"
    from a have g: "hasOwnProperty (JObject obj) k = Inr True"
      by (simp add: hasOwnProperty_inherited)
    from a have rest: "''hasOwnProperty'' \<notin> fst ` set obj \<and> (\<forall>w \<in> snd ` set ps. ordinary w)"
      and v: "ordinary v" by simp_all
    show "not_recognized_error e"
    proof (cases "v = JUndefined")
      case True
      with l g have "objToStruct_loop obj ps options convertedFields = Inl e" by simp
      with "12.IH"(1) [OF g] True rest show ?thesis by simp
    next
      case False
      show ?thesis
      proof (cases "encodeValue v options")
        case (Inl x)
        with l g False have "x = e" by simp
        with "12.IH"(2) [OF g] False v Inl show ?thesis by simp
      next
        case (Inr c)
        with l g False
        have "objToStruct_loop obj ps options (assignProp convertedFields k c) = Inl e" by simp
        with "12.IH"(3) [OF g _ Inr] False rest show ?thesis by simp
      qed
    qed
  qed
qed (auto simp: unrecognized_def not_recognized_error_def split: sum.splits if_splits)

lemma encode_computed:
  "guarded v \<longrightarrow> encodeValue v options \<noteq> Inl NotModelled"
  "guarded (JObject obj) \<longrightarrow> objToStruct obj options \<noteq> Inl NotModelled"
  "guarded (JObject obj) \<and> (\<forall>v \<in> snd ` set ps. guarded v) \<longrightarrow>
     objToStruct_loop obj ps options convertedFields \<noteq> Inl NotModelled"
  "(\<forall>x \<in> set xs. guarded x) \<longrightarrow> encodeValue_map xs i \<noteq> Inl NotModelled"
proof (induction v options and obj options and obj ps options convertedFields and xs i
    rule: encodeValue_objToStruct_objToStruct_loop_encodeValue_map.induct)
  case (12 obj k v ps options convertedFields)
  show ?case
  proof (intro impI)
    assume a: "guarded (JObject obj) \<and> (\<forall>w \<in> snd ` set ((k, v) # ps). guarded w)"
    then have rest: "guarded (JObject obj) \<and> (\<forall>w \<in> snd ` set ps. guarded w)"
      and v: "guarded v" by simp_all
    show "objToStruct_loop obj ((k, v) # ps) options convertedFields \<noteq> Inl NotModelled"
    proof (cases "hasOwnProperty (JObject obj) k")
      case (Inl x)
      with a have "x = TypeError"
        by (auto simp: hasOwnProperty.simps split: option.splits if_splits)
      with Inl show ?thesis by simp
    next
      case (Inr own)
      then have own: own by (rule hasOwnProperty_answer)
      show ?thesis
      proof (cases "v = JUndefined")
        case True
        with "12.IH"(1) [OF Inr] rest Inr show ?thesis by simp
      next
        case False
        show ?thesis
        proof (cases "encodeValue v options")
          case (Inl x)
          with "12.IH"(2) [OF Inr] False own v have "x \<noteq> NotModelled" by simp
          with Inl Inr False own show ?thesis by simp
        next
          case c: (Inr c)
          from "12.IH"(3) [OF Inr _ c] False own rest
          have "objToStruct_loop obj ps options (assignProp convertedFields k c) \<noteq> Inl NotModelled"
            by simp
          with c Inr False own show ?thesis by simp
        qed
      qed
    qed
  qed
qed (auto simp: unrecognized_def split: sum.splits if_splits)

lemma index_has_no_stringify: "\<not> stringify (JNumber n)"
  by (simp add: stringify_def or_empty_def)

lemma not_recognized_throws:
  "\<not> stringify options \<Longrightarrow> \<not> recognized v \<Longrightarrow>
   encodeValue v options = Inl (Error (''Value of type '' @ typeof v @ '' not recognized.''))"
  by (cases v) (simp_all add: unrecognized_def stringify_def)

lemma encodeValue_map_fails:
  "\<exists>x \<in> set xs. \<not> recognized x \<Longrightarrow> \<exists>e. encodeValue_map xs i = Inl e"
proof (induction xs arbitrary: i)
  case Nil
  then show ?case by simp
next
  case (Cons x xs)
  show ?case
  proof (cases "recognized x")
    case True
    with Cons.prems have "\<exists>x \<in> set xs. \<not> recognized x" by auto
    from Cons.IH [OF this, of "Suc i"] show ?thesis by (auto split: sum.splits)
  next
    case False
    then show ?thesis by (simp add: not_recognized_throws index_has_no_stringify)
  qed
qed



text \<open>
  What \<^verbatim>\<open>objToStruct_\<close> returns for an object \<open>obj\<close> that has no property named
  \<^verbatim>\<open>hasOwnProperty\<close> or \<^verbatim>\<open>__proto__\<close>: when it returns, the result is \<^verbatim>\<open>{fields: ...}\<close>
  whose properties are those of \<open>obj\<close> whose value is not undefined, in the same order, each
  with the encoding of its value; and it does return whenever every value of \<open>obj\<close> is
  undefined or built from the recognised types, with no such name inside.
\<close>

lemma objToStruct_fields:
  assumes "distinct (map fst obj)"
    and "''hasOwnProperty'' \<notin> fst ` set obj" and "''__proto__'' \<notin> fst ` set obj"
  shows "(\<forall>s. objToStruct obj options = Inr s \<longrightarrow>
            (\<exists>fs. s = JObject [(''fields'', JObject fs)] \<and>
               map fst fs = map fst (filter (\<lambda>p. snd p \<noteq> JUndefined) obj) \<and>
               list_all2 (\<lambda>p f. fst f = fst p \<and> encodeValue (snd p) (or_empty options) = Inr (snd f))
                 (filter (\<lambda>p. snd p \<noteq> JUndefined) obj) fs)) \<and>
         ((\<forall>v \<in> snd ` set obj. (v = JUndefined \<or> encodable v) \<and> ordinary v) \<longrightarrow>
            (\<exists>s. objToStruct obj options = Inr s))"
proof (intro conjI allI impI)
  fix s
  assume "objToStruct obj options = Inr s"
  then obtain fs where l: "objToStruct_loop obj obj (or_empty options) [] = Inr fs"
    and s: "s = JObject [(''fields'', JObject fs)]"
    by (auto split: sum.splits)
  from objToStruct_loop_result [OF l assms(2,3)] assms(1)
  have r: "list_all2 (\<lambda>p f. fst f = fst p \<and> encodeValue (snd p) (or_empty options) = Inr (snd f))
      (filter (\<lambda>p. snd p \<noteq> JUndefined) obj) fs" by simp
  then have "map fst fs = map fst (filter (\<lambda>p. snd p \<noteq> JUndefined) obj)"
    by (induction rule: list_all2_induct) simp_all
  with s r show "\<exists>fs. s = JObject [(''fields'', JObject fs)] \<and>
      map fst fs = map fst (filter (\<lambda>p. snd p \<noteq> JUndefined) obj) \<and>
      list_all2 (\<lambda>p f. fst f = fst p \<and> encodeValue (snd p) (or_empty options) = Inr (snd f))
        (filter (\<lambda>p. snd p \<noteq> JUndefined) obj) fs" by blast
next
  assume "\<forall>v \<in> snd ` set obj. (v = JUndefined \<or> encodable v) \<and> ordinary v"
  with encodable_total(2) [of obj options] assms(2)
  show "\<exists>s. objToStruct obj options = Inr s" by blast
qed

text \<open>
  C7. That \<^verbatim>\<open>objToStruct_(obj, options)\<close> produces, for every object \<open>obj\<close>, a struct whose
  fields are exactly the properties of \<open>obj\<close> that are not undefined, fails on the code
  for an object that has a property named \<^verbatim>\<open>hasOwnProperty\<close> or \<^verbatim>\<open>__proto__\<close>. For \<^verbatim>\<open>{a: 1, hasOwnProperty: 2}\<close> the call
  \<^verbatim>\<open>obj.hasOwnProperty(prop)\<close> finds the number 2 and throws a TypeError: no struct is
  produced. For \<^verbatim>\<open>{"__proto__": 1, "a": 1}\<close> (as \<^verbatim>\<open>JSON.parse\<close> returns it) the assignment
  \<^verbatim>\<open>fields['__proto__'] = ...\<close> adds no property: the struct has the field \<^verbatim>\<open>a\<close> only.
  A property set to undefined is left out, as the claim says.
\<close>

theorem objToStruct_shadowed:
  "objToStruct [(''a'', JNumber 1), (''hasOwnProperty'', JNumber 2)] (JObject []) = Inl TypeError \<and>
   objToStruct [(''__proto__'', JNumber 1), (''a'', JNumber 1)] (JObject []) =
     Inr (JObject [(''fields'', JObject [(''a'', JObject [(''numberValue'', JNumber 1)])])]) \<and>
   objToStruct [(''a'', JNumber 1), (''b'', JUndefined), (''c'', JNull)] (JObject []) =
     Inr (JObject [(''fields'', JObject
       [(''a'', JObject [(''numberValue'', JNumber 1)]),
        (''c'', JObject [(''nullValue'', JNumber 0)])])])"
  by (simp add: or_empty_def hasOwnProperty.simps assignProp_def)

text \<open>
  C8. A value of an unrecognised type makes \<^verbatim>\<open>encodeValue_\<close> throw
  \<^verbatim>\<open>Value of type <typeof value> not recognized.\<close> when \<^verbatim>\<open>options.stringify\<close> is false or
  absent (also when \<^verbatim>\<open>options\<close> itself is absent); when it is true, the result is the
  string leaf holding \<^verbatim>\<open>String(value)\<close>.
\<close>

theorem encodeValue_unrecognized:
  assumes "\<not> recognized v"
  shows "(\<not> stringify options \<longrightarrow>
            encodeValue v options =
              Inl (Error (''Value of type '' @ typeof v @ '' not recognized.''))) \<and>
         (stringify options \<longrightarrow>
            encodeValue v options = Inr (JObject [(''stringValue'', JString (String v))])) \<and>
         \<not> stringify JUndefined \<and> \<not> stringify (JObject []) \<and>
         \<not> stringify (JObject [(''stringify'', JBoolean False)]) \<and>
         stringify (JObject [(''stringify'', JBoolean True)])"
  using assms
  by (cases v) (simp_all add: unrecognized_def stringify_def or_empty_def)

theorem encodeValue_unrecognized_witness:
  "\<not> recognized (JOther ''function'' ''function () {}'') \<and>
   encodeValue (JOther ''function'' ''function () {}'') JUndefined =
     Inl (Error ''Value of type function not recognized.'') \<and>
   encodeValue (JOther ''function'' ''function () {}'') (JObject [(''stringify'', JBoolean False)]) =
     Inl (Error ''Value of type function not recognized.'') \<and>
   encodeValue (JOther ''function'' ''function () {}'') (JObject [(''stringify'', JBoolean True)]) =
     Inr (JObject [(''stringValue'', JString ''function () {}'')])"
  using encodeValue_unrecognized [of "JOther ''function'' ''function () {}''" JUndefined]
    encodeValue_unrecognized [of "JOther ''function'' ''function () {}''"
      "JObject [(''stringify'', JBoolean False)]"]
    encodeValue_unrecognized [of "JOther ''function'' ''function () {}''"
      "JObject [(''stringify'', JBoolean True)]"]
  by simp

text \<open>
  C9. The elements of an array are encoded by \<^verbatim>\<open>value.map(GrpcService.encodeValue_)\<close>,
  which hands each element its index where \<^verbatim>\<open>options\<close> is expected: the result does not
  depend on the \<^verbatim>\<open>options\<close> of the call, and an array with an element of an unrecognised
  type makes the call fail whatever \<^verbatim>\<open>options\<close> is, also with \<^verbatim>\<open>stringify\<close> true. The
  failure is a \<^verbatim>\<open>throw\<close> of the code when no object in the array holds a function under
  the name \<^verbatim>\<open>hasOwnProperty\<close> (otherwise the model may stop at the call of that function),
  and what is thrown is the error \<^verbatim>\<open>Value of type ... not recognized.\<close> when no object in
  the array has a property named \<^verbatim>\<open>hasOwnProperty\<close> or \<^verbatim>\<open>__proto__\<close>.
\<close>

theorem encodeValue_list_ignores_options:
  "encodeValue (JArray xs) options = encodeValue (JArray xs) JUndefined \<and>
   ((\<exists>x \<in> set xs. \<not> recognized x) \<longrightarrow>
      (\<exists>e. encodeValue (JArray xs) options = Inl e \<and>
           (guarded (JArray xs) \<longrightarrow> e \<noteq> NotModelled) \<and>
           (ordinary (JArray xs) \<longrightarrow> not_recognized_error e)))"
proof (intro conjI impI)
  show "encodeValue (JArray xs) options = encodeValue (JArray xs) JUndefined" by simp
next
  assume "\<exists>x \<in> set xs. \<not> recognized x"
  from encodeValue_map_fails [OF this, of 0] obtain e where "encodeValue_map xs 0 = Inl e" ..
  then have e: "encodeValue (JArray xs) options = Inl e" by simp
  with encode_errors(1) [of "JArray xs" options e] encode_computed(1) [of "JArray xs" options]
  show "\<exists>e. encodeValue (JArray xs) options = Inl e \<and>
       (guarded (JArray xs) \<longrightarrow> e \<noteq> NotModelled) \<and>
       (ordinary (JArray xs) \<longrightarrow> not_recognized_error e)" by auto
qed

theorem encodeValue_list_ignores_options_witness:
  "(\<exists>x \<in> set [JNumber 1, JOther ''function'' ''function () {}'']. \<not> recognized x) \<and>
   guarded (JArray [JNumber 1, JOther ''function'' ''function () {}'']) \<and>
   ordinary (JArray [JNumber 1, JOther ''function'' ''function () {}'']) \<and>
   stringify (JObject [(''stringify'', JBoolean True)]) \<and>
   (\<exists>e. encodeValue (JArray [JNumber 1, JOther ''function'' ''function () {}''])
           (JObject [(''stringify'', JBoolean True)]) = Inl e \<and> e \<noteq> NotModelled \<and>
         not_recognized_error e)"
  using encodeValue_list_ignores_options [of "[JNumber 1, JOther ''function'' ''function () {}'']"
      "JObject [(''stringify'', JBoolean True)]"]
  by (simp add: stringify_def or_empty_def)



section \<open>Properties of the decoder and the round trip\<close>

lemma addKind_fields_map: "addKind_fields fs = map (\<lambda>p. (fst p, addKind (snd p))) fs"
  by (induction fs) auto

lemma addKind_values_map: "addKind_values vs = map addKind vs"
  by (induction vs) auto

lemma objToStruct_loop_append:
  "list_all2 (\<lambda>p f. fst f = fst p \<and> snd p \<noteq> JUndefined \<and> encodeValue (snd p) options = Inr (snd f)) ps fs \<Longrightarrow>
   distinct (map fst acc @ map fst ps) \<Longrightarrow>
   ''hasOwnProperty'' \<notin> fst ` set obj \<Longrightarrow> ''__proto__'' \<notin> fst ` set ps \<Longrightarrow>
   objToStruct_loop obj ps options acc = Inr (acc @ fs)"
proof (induction ps fs arbitrary: acc rule: list_all2_induct)
  case Nil
  then show ?case by simp
next
  case (Cons p ps f fs)
  obtain k v where p: "p = (k, v)" by (cases p)
  obtain k' m where f: "f = (k', m)" by (cases f)
  from Cons.hyps(1) p f have kk: "k' = k" and v: "v \<noteq> JUndefined"
    and m: "encodeValue v options = Inr m" by simp_all
  from Cons.prems(1) p have fresh: "k \<notin> fst ` set acc" by auto
  have d: "distinct (map fst (acc @ [(k, m)]) @ map fst ps)"
    using Cons.prems(1) p by auto
  from Cons.prems(3) p have k: "k \<noteq> ''__proto__''" and rest: "''__proto__'' \<notin> fst ` set ps"
    by auto
  from Cons.IH [OF d Cons.prems(2) rest] show ?case
    using p f kk v m k
    by (simp add: setProp_fresh [OF fresh] assignProp_def
        hasOwnProperty_inherited [OF Cons.prems(2)])
qed

lemma structToObj_loop_append:
  "list_all2 (\<lambda>p f. fst f = fst p \<and> decodeValue (snd f) = Inr (snd p)) ps fs \<Longrightarrow>
   distinct (map fst acc @ map fst ps) \<Longrightarrow>
   ''hasOwnProperty'' \<notin> fst ` set sf \<Longrightarrow> ''__proto__'' \<notin> fst ` set ps \<Longrightarrow>
   structToObj_loop (JObject sf) fs acc = Inr (acc @ ps)"
proof (induction ps fs arbitrary: acc rule: list_all2_induct)
  case Nil
  then show ?case by simp
next
  case (Cons p ps f fs)
  obtain k v where p: "p = (k, v)" by (cases p)
  obtain k' m where f: "f = (k', m)" by (cases f)
  from Cons.hyps(1) p f have kk: "k' = k" and m: "decodeValue m = Inr v" by simp_all
  from Cons.prems(1) p have fresh: "k \<notin> fst ` set acc" by auto
  have d: "distinct (map fst (acc @ [(k, v)]) @ map fst ps)"
    using Cons.prems(1) p by auto
  from Cons.prems(3) p have k: "k \<noteq> ''__proto__''" and rest: "''__proto__'' \<notin> fst ` set ps"
    by auto
  from Cons.IH [OF d Cons.prems(2) rest] show ?case
    using p f kk m k
    by (simp add: setProp_fresh [OF fresh] assignProp_def
        hasOwnProperty_inherited [OF Cons.prems(2)])
qed

lemma list_all2_names:
  "list_all2 (\<lambda>p f. fst f = fst p \<and> Q p f) ps fs \<Longrightarrow> fst ` set fs = fst ` set ps"
  by (induction ps fs rule: list_all2_induct) auto

lemma addKind_fields_names: "fst ` set (addKind_fields fs) = fst ` set fs"
  by (simp add: addKind_fields_map image_image)

lemma decodeValue_map_all:
  "list_all2 (\<lambda>x m. decodeValue m = Inr x) xs ms \<Longrightarrow> decodeValue_map ms = Inr xs"
  by (induction xs ms rule: list_all2_induct) auto

lemma encodeValue_map_all:
  "list_all2 (\<lambda>x m. \<forall>options. encodeValue x options = Inr m) xs ms \<Longrightarrow> encodeValue_map xs i = Inr ms"
  by (induction xs ms arbitrary: i rule: list_all2_induct) auto

lemma list_all2_ex: "(\<forall>x \<in> set xs. \<exists>y. P x y) \<Longrightarrow> \<exists>ys. list_all2 P xs ys"
proof (induction xs)
  case Nil
  then show ?case by simp
next
  case (Cons x xs)
  then obtain y ys where "P x y" "list_all2 P xs ys" by auto
  then have "list_all2 P (x # xs) (y # ys)" by simp
  then show ?case ..
qed

declare decodeValue.simps [simp del] structToObj.simps [simp del]

lemma decodeValue_struct:
  "decodeValue (JObject [(''kind'', JString ''structValue''), (''structValue'', s)]) = structToObj s"
  by (simp add: decodeValue.simps)

lemma decodeValue_list:
  "decodeValue (JObject [(''kind'', JString ''listValue''),
      (''listValue'', JObject [(''values'', JArray ms)])]) =
   (case decodeValue_map ms of Inl e \<Rightarrow> Inl e | Inr ys \<Rightarrow> Inr (JArray ys))"
  by (simp add: decodeValue.simps)

lemma structToObj_fields:
  "structToObj (JObject [(''fields'', JObject fs)]) =
   (case structToObj_loop (JObject fs) fs [] of Inl e \<Rightarrow> Inl e | Inr c \<Rightarrow> Inr (JObject c))"
  by (simp add: structToObj.simps)

lemma leaf_null: "decodeValue (addKind (JObject [(''nullValue'', JNumber 0)])) = Inr JNull"
  by (simp add: decodeValue.simps)

lemma leaf_number: "decodeValue (addKind (JObject [(''numberValue'', JNumber n)])) = Inr (JNumber n)"
  by (simp add: decodeValue.simps)

lemma leaf_string: "decodeValue (addKind (JObject [(''stringValue'', JString s)])) = Inr (JString s)"
  by (simp add: decodeValue.simps)

lemma leaf_bool: "decodeValue (addKind (JObject [(''boolValue'', JBoolean b)])) = Inr (JBoolean b)"
  by (simp add: decodeValue.simps)

lemma leaf_blob: "decodeValue (addKind (JObject [(''blobValue'', JBuffer b)])) = Inr (JBuffer b)"
  by (simp add: decodeValue.simps)

lemma plain_defined: "plain v \<Longrightarrow> v \<noteq> JUndefined"
  by (cases v) simp_all

text \<open>
  The two loops on the properties \<open>ps\<close> of an object and on their encodings \<open>fs\<close>, when no
  property is named \<^verbatim>\<open>hasOwnProperty\<close> or \<^verbatim>\<open>__proto__\<close>, none is undefined and each
  encoding, once it carries \<^verbatim>\<open>kind\<close>, decodes to its value.
\<close>

lemma loops_roundtrip:
  assumes fs: "list_all2 (\<lambda>p f. fst f = fst p \<and>
        (\<forall>options. encodeValue (snd p) options = Inr (snd f)) \<and>
        decodeValue (addKind (snd f)) = Inr (snd p)) ps fs"
    and d: "distinct (map fst ps)"
    and h: "''hasOwnProperty'' \<notin> fst ` set ps" and q: "''__proto__'' \<notin> fst ` set ps"
    and defined: "\<forall>p \<in> set ps. snd p \<noteq> JUndefined"
  shows "objToStruct_loop ps ps options [] = Inr fs"
    and "structToObj_loop (JObject (addKind_fields fs)) (addKind_fields fs) [] = Inr ps"
proof -
  from d have d0: "distinct (map fst [] @ map fst ps)" by simp
  have "objToStruct_loop ps ps options [] = Inr ([] @ fs)"
  proof (rule objToStruct_loop_append [OF _ d0 h q])
    show "list_all2 (\<lambda>p f. fst f = fst p \<and> snd p \<noteq> JUndefined \<and>
        encodeValue (snd p) options = Inr (snd f)) ps fs"
      using fs defined unfolding list_all2_conv_all_nth by simp
  qed
  then show "objToStruct_loop ps ps options [] = Inr fs" by simp
  from list_all2_names [OF fs] h
  have h': "''hasOwnProperty'' \<notin> fst ` set (addKind_fields fs)"
    by (simp add: addKind_fields_names)
  have "structToObj_loop (JObject (addKind_fields fs)) (addKind_fields fs) [] = Inr ([] @ ps)"
  proof (rule structToObj_loop_append [OF _ d0 h' q])
    show "list_all2 (\<lambda>p f. fst f = fst p \<and> decodeValue (snd f) = Inr (snd p)) ps (addKind_fields fs)"
      using fs unfolding addKind_fields_map list_all2_conv_all_nth by simp
  qed
  then show "structToObj_loop (JObject (addKind_fields fs)) (addKind_fields fs) [] = Inr ps"
    by simp
qed

lemma roundtrip_object:
  assumes IH: "\<And>p v. p \<in> set ps \<Longrightarrow> v = snd p \<Longrightarrow> plain v \<Longrightarrow> ordinary v \<Longrightarrow>
      \<exists>m. (\<forall>options. encodeValue v options = Inr m) \<and> decodeValue (addKind m) = Inr v"
    and pl: "plain (JObject ps)" and ord: "ordinary (JObject ps)"
  shows "\<exists>fs. list_all2 (\<lambda>p f. fst f = fst p \<and>
             (\<forall>options. encodeValue (snd p) options = Inr (snd f)) \<and>
             decodeValue (addKind (snd f)) = Inr (snd p)) ps fs"
proof -
  let ?Q = "\<lambda>p f. fst f = fst p \<and> (\<forall>options. encodeValue (snd p) options = Inr (snd f)) \<and>
              decodeValue (addKind (snd f)) = Inr (snd p)"
  have "\<forall>p \<in> set ps. \<exists>f. ?Q p f"
  proof
    fix p assume p: "p \<in> set ps"
    with pl ord have "plain (snd p)" "ordinary (snd p)" by simp_all
    with IH [OF p refl] obtain m where "\<forall>options. encodeValue (snd p) options = Inr m"
      "decodeValue (addKind m) = Inr (snd p)" by blast
    then have "?Q p (fst p, m)" by simp
    then show "\<exists>f. ?Q p f" ..
  qed
  then show ?thesis using list_all2_ex [of ps ?Q] by blast
qed

lemma roundtrip_struct:
  assumes fs: "list_all2 (\<lambda>p f. fst f = fst p \<and>
        (\<forall>options. encodeValue (snd p) options = Inr (snd f)) \<and>
        decodeValue (addKind (snd f)) = Inr (snd p)) ps fs"
    and pl: "plain (JObject ps)" and ord: "ordinary (JObject ps)"
  shows "\<exists>m. (\<forall>options. encodeValue (JObject ps) options = Inr m) \<and>
             decodeValue (addKind m) = Inr (JObject ps)"
proof -
  from pl have d: "distinct (map fst ps)" by simp
  from ord have h: "''hasOwnProperty'' \<notin> fst ` set ps" and q: "''__proto__'' \<notin> fst ` set ps"
    by simp_all
  from pl have defined: "\<forall>p \<in> set ps. snd p \<noteq> JUndefined"
    by (auto dest: plain_defined)
  note l = loops_roundtrip [OF fs d h q defined]
  let ?m = "JObject [(''structValue'', JObject [(''fields'', JObject fs)])]"
  have "\<forall>options. encodeValue (JObject ps) options = Inr ?m"
    using l(1) by simp
  moreover have "addKind ?m = JObject [(''kind'', JString ''structValue''),
      (''structValue'', JObject [(''fields'', JObject (addKind_fields fs))])]"
    by simp
  then have "decodeValue (addKind ?m) = Inr (JObject ps)"
    using l(2) by (simp only: decodeValue_struct structToObj_fields sum.case)
  ultimately show ?thesis by blast
qed

lemma roundtrip_array:
  assumes IH: "\<And>x. x \<in> set xs \<Longrightarrow> plain x \<Longrightarrow> ordinary x \<Longrightarrow>
      \<exists>m. (\<forall>options. encodeValue x options = Inr m) \<and> decodeValue (addKind m) = Inr x"
    and pl: "plain (JArray xs)" and ord: "ordinary (JArray xs)"
  shows "\<exists>m. (\<forall>options. encodeValue (JArray xs) options = Inr m) \<and>
             decodeValue (addKind m) = Inr (JArray xs)"
proof -
  let ?Q = "\<lambda>x m. (\<forall>options. encodeValue x options = Inr m) \<and> decodeValue (addKind m) = Inr x"
  have "\<forall>x \<in> set xs. \<exists>m. ?Q x m" using IH pl ord by simp
  then obtain ms where ms: "list_all2 ?Q xs ms" using list_all2_ex [of xs ?Q] by blast
  have enc: "encodeValue_map xs 0 = Inr ms"
    by (rule encodeValue_map_all) (use ms in \<open>simp add: list_all2_conv_all_nth\<close>)
  have dec: "decodeValue_map (addKind_values ms) = Inr xs"
    by (rule decodeValue_map_all)
      (use ms in \<open>simp add: addKind_values_map list_all2_conv_all_nth\<close>)
  let ?m = "JObject [(''listValue'', JObject [(''values'', JArray ms)])]"
  have "\<forall>options. encodeValue (JArray xs) options = Inr ?m" using enc by simp
  moreover have "addKind ?m = JObject [(''kind'', JString ''listValue''),
      (''listValue'', JObject [(''values'', JArray (addKind_values ms))])]"
    by simp
  then have "decodeValue (addKind ?m) = Inr (JArray xs)"
    using dec by (simp only: decodeValue_list sum.case)
  ultimately show ?thesis by blast
qed

lemma roundtrip_value:
  "plain v \<Longrightarrow> ordinary v \<Longrightarrow>
   \<exists>m. (\<forall>options. encodeValue v options = Inr m) \<and> decodeValue (addKind m) = Inr v"
proof (induction v)
  case (JObject ps)
  have "\<exists>fs. list_all2 (\<lambda>p f. fst f = fst p \<and>
             (\<forall>options. encodeValue (snd p) options = Inr (snd f)) \<and>
             decodeValue (addKind (snd f)) = Inr (snd p)) ps fs"
  proof (rule roundtrip_object [OF _ JObject.prems])
    fix p :: "string \<times> js" and v
    assume "p \<in> set ps" "v = snd p" "plain v" "ordinary v"
    moreover have "snd p \<in> Basic_BNFs.snds p" by (cases p) simp
    ultimately show "\<exists>m. (\<forall>options. encodeValue v options = Inr m) \<and>
        decodeValue (addKind m) = Inr v"
      using JObject.IH by blast
  qed
  then obtain fs where "list_all2 (\<lambda>p f. fst f = fst p \<and>
             (\<forall>options. encodeValue (snd p) options = Inr (snd f)) \<and>
             decodeValue (addKind (snd f)) = Inr (snd p)) ps fs" ..
  then show ?case by (rule roundtrip_struct [OF _ JObject.prems])
next
  case (JArray xs)
  show ?case by (rule roundtrip_array [OF _ JArray.prems]) (use JArray.IH in blast)
next
  case JNull
  show ?case using leaf_null by simp
next
  case (JNumber n)
  show ?case using leaf_number by simp
next
  case (JString s)
  show ?case using leaf_string by simp
next
  case (JBoolean b)
  show ?case using leaf_bool by simp
next
  case (JBuffer b)
  show ?case using leaf_blob by simp
next
  case JUndefined
  then show ?case by simp
next
  case (JOther ty s)
  then show ?case by simp
qed

lemma decodeValue_without_kind:
  "encodeValue v options = Inr m \<Longrightarrow> decodeValue m = Inr JUndefined"
  by (cases v)
    (auto simp: decodeValue.simps unrecognized_def split: sum.splits if_splits)

lemma plain_fields:
  assumes pl: "plain (JObject ps)" and ord: "ordinary (JObject ps)"
  shows "\<exists>fs. (\<forall>options. objToStruct_loop ps ps options [] = Inr fs) \<and>
              structToObj_loop (JObject (addKind_fields fs)) (addKind_fields fs) [] = Inr ps \<and>
              structToObj_loop (JObject fs) fs [] = Inr (map (\<lambda>p. (fst p, JUndefined)) ps)"
proof -
  let ?Q = "\<lambda>p f. fst f = fst p \<and> (\<forall>options. encodeValue (snd p) options = Inr (snd f)) \<and>
              decodeValue (addKind (snd f)) = Inr (snd p)"
  have "\<exists>fs. list_all2 ?Q ps fs"
    by (rule roundtrip_object [OF _ pl ord]) (use roundtrip_value in blast)
  then obtain fs where fs: "list_all2 ?Q ps fs" ..
  from pl have d: "distinct (map fst ps)" by simp
  from ord have h: "''hasOwnProperty'' \<notin> fst ` set ps" and q: "''__proto__'' \<notin> fst ` set ps"
    by simp_all
  from pl have defined: "\<forall>p \<in> set ps. snd p \<noteq> JUndefined"
    by (auto dest: plain_defined)
  note l = loops_roundtrip [OF fs d h q defined]
  from d have d': "distinct (map fst [] @ map fst (map (\<lambda>p. (fst p, JUndefined)) ps))"
    by (simp add: comp_def)
  from list_all2_names [OF fs] h have h': "''hasOwnProperty'' \<notin> fst ` set fs" by simp
  from q have q': "''__proto__'' \<notin> fst ` set (map (\<lambda>p. (fst p, JUndefined)) ps)"
    by (simp add: image_image)
  have raw: "structToObj_loop (JObject fs) fs [] = Inr ([] @ map (\<lambda>p. (fst p, JUndefined)) ps)"
  proof (rule structToObj_loop_append [OF _ d' h' q'])
    have "decodeValue (snd (fs ! i)) = Inr JUndefined" if "i < length ps" for i
    proof -
      from fs that have "encodeValue (snd (ps ! i)) JUndefined = Inr (snd (fs ! i))"
        unfolding list_all2_conv_all_nth by simp
      then show ?thesis by (rule decodeValue_without_kind)
    qed
    then show "list_all2 (\<lambda>p f. fst f = fst p \<and> decodeValue (snd f) = Inr (snd p))
        (map (\<lambda>p. (fst p, JUndefined)) ps) fs"
      using fs unfolding list_all2_conv_all_nth by simp
  qed
  from l raw show ?thesis by auto
qed

text \<open>
  C1 (as amended). For every object \<open>v\<close> built from null, numbers, strings, booleans,
  Buffers, plain objects and arrays, with no undefined property and with no property
  named \<^verbatim>\<open>hasOwnProperty\<close> or \<^verbatim>\<open>__proto__\<close> at any depth, \<^verbatim>\<open>objToStruct_(v, {})\<close> returns
  a Struct \<open>s\<close>, and \<^verbatim>\<open>structToObj_\<close> returns \<open>v\<close> from \<open>s\<close> once every encoded value
  carries the field \<^verbatim>\<open>kind\<close> naming its member. \<^verbatim>\<open>encodeValue_\<close> writes no \<^verbatim>\<open>kind\<close>:
  applied to \<open>s\<close> itself, \<^verbatim>\<open>structToObj_\<close> returns the object with the property names of
  \<open>v\<close>, each undefined.
\<close>

theorem struct_roundtrip_kind:
  assumes "plain (JObject v)" and "ordinary (JObject v)"
  shows "\<exists>s. objToStruct v (JObject []) = Inr s \<and>
             structToObj (addKind_struct s) = Inr (JObject v) \<and>
             roundTrip v = Inr (JObject (map (\<lambda>p. (fst p, JUndefined)) v))"
proof -
  from plain_fields [OF assms] obtain fs
    where enc: "\<And>options. objToStruct_loop v v options [] = Inr fs"
      and dec: "structToObj_loop (JObject (addKind_fields fs)) (addKind_fields fs) [] = Inr v"
      and raw: "structToObj_loop (JObject fs) fs [] = Inr (map (\<lambda>p. (fst p, JUndefined)) v)"
    by blast
  let ?s = "JObject [(''fields'', JObject fs)]"
  have s: "objToStruct v (JObject []) = Inr ?s" using enc by simp
  have "addKind_struct ?s = JObject [(''fields'', JObject (addKind_fields fs))]" by simp
  then have k: "structToObj (addKind_struct ?s) = Inr (JObject v)"
    using dec by (simp only: structToObj_fields sum.case)
  have r: "roundTrip v = Inr (JObject (map (\<lambda>p. (fst p, JUndefined)) v))"
    unfolding roundTrip_def using s raw by (simp only: structToObj_fields sum.case)
  from s k r show ?thesis by blast
qed

theorem struct_roundtrip_kind_witness:
  "plain (JObject [(''a'', JNumber 1), (''b'', JArray [JNull, JString ''x'']),
       (''c'', JObject [(''d'', JBoolean True), (''e'', JBuffer [7])])]) \<and>
   ordinary (JObject [(''a'', JNumber 1), (''b'', JArray [JNull, JString ''x'']),
       (''c'', JObject [(''d'', JBoolean True), (''e'', JBuffer [7])])]) \<and>
   (\<exists>s. objToStruct [(''a'', JNumber 1), (''b'', JArray [JNull, JString ''x'']),
       (''c'', JObject [(''d'', JBoolean True), (''e'', JBuffer [7])])] (JObject []) = Inr s \<and>
     structToObj (addKind_struct s) =
       Inr (JObject [(''a'', JNumber 1), (''b'', JArray [JNull, JString ''x'']),
         (''c'', JObject [(''d'', JBoolean True), (''e'', JBuffer [7])])]))"
  using struct_roundtrip_kind [of "[(''a'', JNumber 1), (''b'', JArray [JNull, JString ''x'']),
       (''c'', JObject [(''d'', JBoolean True), (''e'', JBuffer [7])])]"]
  by auto

text \<open>
  C1 as stated fails: \<^verbatim>\<open>structToObj_(objToStruct_({a: 1}, {}))\<close> is
  \<^verbatim>\<open>{a: undefined}\<close>.
\<close>

theorem struct_roundtrip_counterexample:
  "plain (JObject [(''a'', JNumber 1)]) \<and>
   roundTrip [(''a'', JNumber 1)] = Inr (JObject [(''a'', JUndefined)]) \<and>
   roundTrip [(''a'', JNumber 1)] \<noteq> Inr (JObject [(''a'', JNumber 1)])"
  by (simp add: roundTrip_def or_empty_def structToObj.simps decodeValue.simps
      hasOwnProperty.simps assignProp_def)

section \<open>Properties of the error translator and the retry predicate\<close>

lemma nat_of_string_of_nat: "nat_of_string (string_of_nat n) = n"
proof (induction n rule: string_of_nat.induct)
  case (1 n)
  show ?case
  proof (cases "n < 10")
    case True
    then show ?thesis by (simp add: nat_of_string_def)
  next
    case False
    with 1 have "nat_of_string (string_of_nat (n div 10)) = n div 10" by simp
    moreover have "n mod 10 < 10" by simp
    ultimately show ?thesis using False
      by (subst string_of_nat.simps) (simp add: nat_of_string_def)
  qed
qed

lemma map_of_setProp: "map_of (setProp t k v) = (map_of t)(k \<mapsto> v)"
  by (induction t) (auto simp: fun_eq_iff)

lemma distinct_setProp: "distinct (map fst t) \<Longrightarrow> distinct (map fst (setProp t k v))"
  by (induction t) (auto simp: setProp_keys split: if_splits)

lemma map_of_assign:
  "distinct (map fst ps) \<Longrightarrow> map_of (assign t ps) = map_of t ++ map_of ps"
proof (induction ps arbitrary: t)
  case Nil
  then show ?case by simp
next
  case (Cons p ps)
  obtain k v where p: "p = (k, v)" by (cases p)
  with Cons.prems have k: "k \<notin> dom (map_of ps)" and d: "distinct (map fst ps)"
    by (auto simp: dom_map_of_conv_image_fst)
  have "map_of (assign t (p # ps)) = map_of (setProp t k v) ++ map_of ps"
    using Cons.IH [OF d, of "setProp t k v"] p by simp
  then have "map_of (assign t (p # ps)) = (map_of t)(k \<mapsto> v) ++ map_of ps"
    by (simp only: map_of_setProp)
  also have "\<dots> = map_of t ++ (map_of ps)(k \<mapsto> v)"
    using k by (auto simp: fun_eq_iff map_add_def split: option.splits)
  finally show ?case by (simp only: p map_of.simps fst_conv snd_conv)
qed

lemma distinct_assign: "distinct (map fst t) \<Longrightarrow> distinct (map fst (assign t ps))"
  by (induction ps arbitrary: t) (auto simp: distinct_setProp)

lemma extend_error:
  assumes "distinct (map fst ps)"
  shows "map_of (extend [] [JObject ps, entry c m]) =
           (map_of ps)(''code'' \<mapsto> JNumber c, ''message'' \<mapsto> JString m)"
    and "distinct (map fst (extend [] [JObject ps, entry c m]))"
proof -
  have "map_of (assign [] ps) = map_of ps"
    using map_of_assign [OF assms, of "[]"] by simp
  then show "map_of (extend [] [JObject ps, entry c m]) =
           (map_of ps)(''code'' \<mapsto> JNumber c, ''message'' \<mapsto> JString m)"
    by (simp add: extend_def entry_def map_of_setProp)
  show "distinct (map fst (extend [] [JObject ps, entry c m]))"
    by (simp add: extend_def entry_def distinct_setProp distinct_assign)
qed

declare string_of_nat.simps [simp del]

lemma string_of_int_keys:
  "map string_of_int [0..16] = map fst GRPC_ERROR_CODE_TO_HTTP"
  by code_simp

lemma table_rows:
  "(k, e) \<in> set GRPC_ERROR_CODE_TO_HTTP \<Longrightarrow> \<exists>c m. e = entry c m"
  unfolding GRPC_ERROR_CODE_TO_HTTP_def by auto

lemma table_keys:
  "k \<in> fst ` set GRPC_ERROR_CODE_TO_HTTP \<Longrightarrow> k \<noteq> [] \<and> hd k \<noteq> CHR ''-'' \<and> nat_of_string k \<le> 16"
  unfolding GRPC_ERROR_CODE_TO_HTTP_def
  by (auto simp: nat_of_string_def)

lemma table_miss:
  assumes "n < 0 \<or> 16 < n"
  shows "map_of GRPC_ERROR_CODE_TO_HTTP (string_of_int n) = None"
proof -
  have "string_of_int n \<notin> fst ` set GRPC_ERROR_CODE_TO_HTTP"
  proof
    assume "string_of_int n \<in> fst ` set GRPC_ERROR_CODE_TO_HTTP"
    from table_keys [OF this] have h: "hd (string_of_int n) \<noteq> CHR ''-''"
      and b: "nat_of_string (string_of_int n) \<le> 16" by simp_all
    from h have pos: "\<not> n < 0" by (auto simp: string_of_int_def)
    then have "string_of_int n = string_of_nat (nat n)" by (simp add: string_of_int_def)
    with b have "nat n \<le> 16" by (simp only: nat_of_string_of_nat)
    with pos assms show False by simp
  qed
  then show ?thesis by (simp add: map_of_eq_None_iff)
qed

lemma table_hit:
  assumes "0 \<le> n" "n \<le> 16"
  shows "\<exists>c m. map_of GRPC_ERROR_CODE_TO_HTTP (string_of_int n) = Some (entry c m)"
proof -
  from assms have "n \<in> set [0..16]" by simp
  then have "string_of_int n \<in> set (map string_of_int [0..16])"
    by (simp only: set_map) (rule imageI)
  then have "string_of_int n \<in> fst ` set GRPC_ERROR_CODE_TO_HTTP"
    by (simp only: string_of_int_keys set_map)
  then obtain e where e: "map_of GRPC_ERROR_CODE_TO_HTTP (string_of_int n) = Some e"
    by (cases "map_of GRPC_ERROR_CODE_TO_HTTP (string_of_int n)")
      (simp_all add: map_of_eq_None_iff)
  from map_of_SomeD [OF e] table_rows obtain c m where "e = entry c m" by blast
  with e show ?thesis by blast
qed

lemma getError_hit:
  assumes d: "distinct (map fst ps)" and c: "map_of ps ''code'' = Some (JNumber n)"
    and t: "map_of GRPC_ERROR_CODE_TO_HTTP (string_of_int n) = Some (entry c m)"
  shows "getError (JObject ps) = Inr (JObject (extend [] [JObject ps, entry c m]))"
  using c t by (simp add: getError_def entry_def)

lemma getError_miss:
  assumes c: "map_of ps ''code'' = Some (JNumber n) \<and> (n < 0 \<or> 16 < n) \<or> map_of ps ''code'' = None"
  shows "getError (JObject ps) = Inr JNull"
proof -
  have "map_of GRPC_ERROR_CODE_TO_HTTP ''undefined'' = None"
    by (simp add: GRPC_ERROR_CODE_TO_HTTP_def)
  with c table_miss [of n] show ?thesis
    by (auto simp: getError_def)
qed

text \<open>
  C3. For an error object \<open>err\<close> whose \<^verbatim>\<open>code\<close> is an integer from 0 to 16,
  \<^verbatim>\<open>getError_(err)\<close> returns an object whose \<^verbatim>\<open>code\<close> and \<^verbatim>\<open>message\<close> are those of the
  row of the table for that code and whose other properties are exactly those of \<open>err\<close>,
  with their values. For an \<open>err\<close> whose \<^verbatim>\<open>code\<close> is any other integer (17, say), or that
  has no \<^verbatim>\<open>code\<close>, it returns null.
\<close>

theorem getError_table:
  assumes "distinct (map fst ps)"
  shows "(\<forall>n. map_of ps ''code'' = Some (JNumber n) \<and> 0 \<le> n \<and> n \<le> 16 \<longrightarrow>
            (\<exists>c m r. map_of GRPC_ERROR_CODE_TO_HTTP (string_of_int n) = Some (entry c m) \<and>
               getError (JObject ps) = Inr (JObject r) \<and> distinct (map fst r) \<and>
               map_of r = (map_of ps)(''code'' \<mapsto> JNumber c, ''message'' \<mapsto> JString m))) \<and>
         (\<forall>n. map_of ps ''code'' = Some (JNumber n) \<and> (n < 0 \<or> 16 < n) \<longrightarrow>
            getError (JObject ps) = Inr JNull) \<and>
         (map_of ps ''code'' = None \<longrightarrow> getError (JObject ps) = Inr JNull)"
proof (intro conjI allI impI)
  fix n
  assume a: "map_of ps ''code'' = Some (JNumber n) \<and> 0 \<le> n \<and> n \<le> 16"
  then obtain c m where t: "map_of GRPC_ERROR_CODE_TO_HTTP (string_of_int n) = Some (entry c m)"
    using table_hit [of n] by blast
  from a have "getError (JObject ps) = Inr (JObject (extend [] [JObject ps, entry c m]))"
    using getError_hit [OF assms _ t] by blast
  with t extend_error [OF assms, of c m]
  show "\<exists>c m r. map_of GRPC_ERROR_CODE_TO_HTTP (string_of_int n) = Some (entry c m) \<and>
      getError (JObject ps) = Inr (JObject r) \<and> distinct (map fst r) \<and>
      map_of r = (map_of ps)(''code'' \<mapsto> JNumber c, ''message'' \<mapsto> JString m)"
    by blast
next
  fix n
  assume "map_of ps ''code'' = Some (JNumber n) \<and> (n < 0 \<or> 16 < n)"
  then show "getError (JObject ps) = Inr JNull" using getError_miss [of ps n] by blast
next
  assume "map_of ps ''code'' = None"
  then show "getError (JObject ps) = Inr JNull" using getError_miss [of ps] by blast
qed

lemma string_of_int_examples:
  "string_of_int 4 = ''4''" "string_of_int 5 = ''5''" "string_of_int 8 = ''8''"
  "string_of_int 17 = ''17''"
  by code_simp+

theorem getError_table_witness:
  "distinct (map fst [(''code'', JNumber 5), (''details'', JString ''no such topic'')]) \<and>
   getError (JObject [(''code'', JNumber 5), (''details'', JString ''no such topic'')]) =
     Inr (JObject [(''code'', JNumber 404), (''details'', JString ''no such topic''),
                   (''message'', JString ''Not Found'')]) \<and>
   getError (JObject [(''code'', JNumber 17), (''details'', JString ''x'')]) = Inr JNull"
  using getError_table [of "[(''code'', JNumber 5), (''details'', JString ''no such topic'')]"]
    getError_table [of "[(''code'', JNumber 17), (''details'', JString ''x'')]"]
  by (simp add: getError_def GRPC_ERROR_CODE_TO_HTTP_def extend_def entry_def
      string_of_int_examples)

lemma indexOf_member: "(indexOf xs x > - 1) = (x \<in> set xs)"
  by (induction xs) auto

lemma deadline_not_retried:
  assumes "distinct (map fst ps)" "map_of ps ''code'' = Some (JNumber 4)"
  shows "\<exists>r. getError (JObject ps) = Inr r \<and> getProp r ''code'' = JNumber 504 \<and>
             shouldRetryRequest r = Inr False"
proof -
  have t: "map_of GRPC_ERROR_CODE_TO_HTTP (string_of_int 4) = Some (entry 504 ''Gateway Timeout'')"
    by code_simp
  from getError_hit [OF assms t] extend_error [OF assms(1), of 504 "''Gateway Timeout''"]
  show ?thesis by (simp add: shouldRetryRequest_def)
qed

text \<open>
  C2. \<^verbatim>\<open>shouldRetryRequest_(response)\<close> is true exactly when \<^verbatim>\<open>response.code\<close> is one of
  the numbers 429, 500, 502 and 503. It is false for 404, 504 and 401; and an error with
  the gRPC code 4 (deadline exceeded) is translated to 504, so it is not retried.
\<close>

theorem shouldRetryRequest_codes:
  "(\<not> nullish response \<longrightarrow>
      shouldRetryRequest response =
        Inr (getProp response ''code'' \<in> {JNumber 429, JNumber 500, JNumber 502, JNumber 503})) \<and>
   shouldRetryRequest (JObject [(''code'', JNumber 404)]) = Inr False \<and>
   shouldRetryRequest (JObject [(''code'', JNumber 504)]) = Inr False \<and>
   shouldRetryRequest (JObject [(''code'', JNumber 401)]) = Inr False \<and>
   (\<forall>ps. distinct (map fst ps) \<and> map_of ps ''code'' = Some (JNumber 4) \<longrightarrow>
      (\<exists>r. getError (JObject ps) = Inr r \<and> getProp r ''code'' = JNumber 504 \<and>
           shouldRetryRequest r = Inr False))"
proof (intro conjI impI allI)
  assume "\<not> nullish response"
  then show "shouldRetryRequest response =
      Inr (getProp response ''code'' \<in> {JNumber 429, JNumber 500, JNumber 502, JNumber 503})"
    by (simp add: shouldRetryRequest_def indexOf_member)
next
  fix ps
  assume "distinct (map fst ps) \<and> map_of ps ''code'' = Some (JNumber 4)"
  then show "\<exists>r. getError (JObject ps) = Inr r \<and> getProp r ''code'' = JNumber 504 \<and>
      shouldRetryRequest r = Inr False"
    using deadline_not_retried by blast
qed (simp_all add: shouldRetryRequest_def)

theorem shouldRetryRequest_codes_witness:
  "\<not> nullish (JObject [(''code'', JNumber 503)]) \<and>
   shouldRetryRequest (JObject [(''code'', JNumber 503)]) = Inr True \<and>
   getError (JObject [(''code'', JNumber 4)]) =
     Inr (JObject [(''code'', JNumber 504), (''message'', JString ''Gateway Timeout'')]) \<and>
   shouldRetryRequest (JObject [(''code'', JNumber 504), (''message'', JString ''Gateway Timeout'')])
     = Inr False"
  using shouldRetryRequest_codes [of "JObject [(''code'', JNumber 503)]"]
  by (simp add: getError_def GRPC_ERROR_CODE_TO_HTTP_def extend_def entry_def
      string_of_int_examples shouldRetryRequest_def)

section \<open>Properties of the unary call\<close>

lemma getError_result: "getError e = Inr r \<Longrightarrow> r = JNull \<or> (\<exists>ps. r = JObject ps)"
  by (auto simp: getError_def split: if_splits)

lemma attempt_cases:
  assumes "attempt n (e, p) = Inr (respError, err, resp)"
  shows "(truthy e \<and> (\<exists>r. getError e = Inr r \<and> truthy r \<and> respError = Made n r \<and>
            err = Given JNull \<and> resp = Made n r)) \<or>
         (truthy e \<and> getError e = Inr JNull \<and> respError = Given JNull \<and>
            err = Given e \<and> resp = Given p) \<or>
         (\<not> truthy e \<and> respError = Given JNull \<and> err = Given JNull \<and> resp = Given p)"
proof (cases "truthy e")
  case False
  with assms show ?thesis by (auto simp: attempt_def)
next
  case True
  then show ?thesis
  proof (cases "getError e")
    case (Inl x)
    with True assms show ?thesis by (simp add: attempt_def)
  next
    case (Inr r)
    with getError_result have "r = JNull \<or> (\<exists>ps. r = JObject ps)" by blast
    with True Inr assms show ?thesis by (auto simp: attempt_def split: if_splits)
  qed
qed

lemma retry_loop_last:
  "retry_loop left rpc k = Inr (respError, err, resp, n) \<Longrightarrow>
   attempt n (rpc n) = Inr (respError, err, resp) \<and> k \<le> n \<and> n \<le> k + left"
proof (induction left arbitrary: k)
  case 0
  then show ?case by (auto split: sum.splits)
next
  case (Suc left)
  from Suc.prems obtain a b c where a: "attempt k (rpc k) = Inr (a, b, c)"
    by (auto split: sum.splits)
  show ?case
  proof (cases "truthy_val b")
    case True
    with Suc.prems a show ?thesis by simp
  next
    case False
    with Suc.prems a obtain again where s: "shouldRetryRequest (contents c) = Inr again"
      by (auto split: sum.splits)
    show ?thesis
    proof (cases again)
      case True
      with Suc.prems a False s have "retry_loop left rpc (Suc k) = Inr (respError, err, resp, n)"
        by simp
      from Suc.IH [OF this] show ?thesis by simp
    next
      case f: False
      with Suc.prems a False s show ?thesis by simp
    qed
  qed
qed

text \<open>
  C4 (as amended). When the retry layer ends with \<^verbatim>\<open>(err, resp)\<close> after attempt \<open>n\<close>:
  if \<^verbatim>\<open>resp\<close> is the very object that \<^verbatim>\<open>getError_\<close> made from the error of attempt
  \<open>n\<close>, the callback receives that object as the error and null as the response;
  otherwise the callback receives \<^verbatim>\<open>(err, resp)\<close> unchanged, which is the stub's payload
  with no error when \<^verbatim>\<open>err\<close> is absent, and the stub's own error when \<^verbatim>\<open>getError_\<close>
  found no row for it.
\<close>

theorem request_disambiguation:
  assumes "retryRequest retries rpc = Inr (respError, err, resp, n)"
  shows "(resp = respError \<and> respError \<noteq> Given JNull \<longrightarrow>
            finish respError err resp = (respError, Given JNull) \<and>
            (\<exists>r. respError = Made n r \<and> truthy (fst (rpc n)) \<and>
                 getError (fst (rpc n)) = Inr r)) \<and>
         (\<not> (resp = respError \<and> respError \<noteq> Given JNull) \<longrightarrow>
            finish respError err resp = (err, resp) \<and>
            (if truthy_val err
             then err = Given (fst (rpc n)) \<and> getError (fst (rpc n)) = Inr JNull
             else resp = Given (snd (rpc n)) \<and> \<not> truthy (fst (rpc n)))) \<and>
         1 \<le> n \<and> n \<le> Suc retries"
proof -
  from assms retry_loop_last [of retries rpc 1 respError err resp n]
  have a: "attempt n (rpc n) = Inr (respError, err, resp)" and n: "1 \<le> n" "n \<le> Suc retries"
    by (simp_all add: retryRequest_def)
  obtain e p where m: "rpc n = (e, p)" by (cases "rpc n")
  from attempt_cases [of n e p respError err resp] a m
  consider (translated) r where "truthy e" "getError e = Inr r" "truthy r" "respError = Made n r"
      "err = Given JNull" "resp = Made n r"
    | (raw) "truthy e" "getError e = Inr JNull" "respError = Given JNull" "err = Given e"
      "resp = Given p"
    | (success) "\<not> truthy e" "respError = Given JNull" "err = Given JNull" "resp = Given p"
    by auto
  then show ?thesis
  proof cases
    case translated
    with m n show ?thesis by (simp add: finish_def)
  next
    case raw
    with m n show ?thesis by (simp add: finish_def)
  next
    case success
    with m n show ?thesis by (auto simp: finish_def)
  qed
qed

lemma retry_not_found:
  "retryRequest 2 not_found =
     Inr (Made 1 (JObject [(''code'', JNumber 404), (''message'', JString ''Not Found'')]),
          Given JNull,
          Made 1 (JObject [(''code'', JNumber 404), (''message'', JString ''Not Found'')]), 1)"
  by code_simp

lemma retry_flaky:
  "retryRequest 2 flaky = Inr (Given JNull, Given JNull, Given (JObject [(''ok'', JBoolean True)]), 3)"
  by code_simp

lemma retry_unmapped:
  "retryRequest 2 unmapped =
     Inr (Given JNull, Given (JObject [(''code'', JNumber 17)]), Given JUndefined, 1)"
  by code_simp

theorem request_disambiguation_witness:
  "retryRequest 2 not_found =
     Inr (Made 1 (JObject [(''code'', JNumber 404), (''message'', JString ''Not Found'')]),
          Given JNull,
          Made 1 (JObject [(''code'', JNumber 404), (''message'', JString ''Not Found'')]), 1) \<and>
   finish (Made 1 (JObject [(''code'', JNumber 404), (''message'', JString ''Not Found'')]))
     (Given JNull)
     (Made 1 (JObject [(''code'', JNumber 404), (''message'', JString ''Not Found'')])) =
     (Made 1 (JObject [(''code'', JNumber 404), (''message'', JString ''Not Found'')]), Given JNull) \<and>
   retryRequest 2 flaky =
     Inr (Given JNull, Given JNull, Given (JObject [(''ok'', JBoolean True)]), 3) \<and>
   finish (Given JNull) (Given JNull) (Given (JObject [(''ok'', JBoolean True)])) =
     (Given JNull, Given (JObject [(''ok'', JBoolean True)]))"
  using request_disambiguation [OF retry_not_found] request_disambiguation [OF retry_flaky]
    retry_not_found retry_flaky
  by (simp add: finish_def flaky_def not_found_def)

text \<open>
  C4 as stated fails: with a stub that fails with code 17, the final response (undefined)
  is not \<^verbatim>\<open>respError\<close> (null), and the callback receives the error, not a success.
\<close>

theorem request_disambiguation_counterexample:
  "retryRequest 2 unmapped =
     Inr (Given JNull, Given (JObject [(''code'', JNumber 17)]), Given JUndefined, 1) \<and>
   Given JUndefined \<noteq> Given JNull \<and>
   finish (Given JNull) (Given (JObject [(''code'', JNumber 17)])) (Given JUndefined) =
     (Given (JObject [(''code'', JNumber 17)]), Given JUndefined) \<and>
   truthy_val (Given (JObject [(''code'', JNumber 17)]))"
  using retry_unmapped by (simp add: finish_def)

section \<open>Properties of the service registry\<close>

lemma getService_hit:
  "activeServiceMap this name = Some s \<Longrightarrow> getService this name = Inr (s, this)"
  by (simp add: getService_def)

lemma getService_miss:
  "activeServiceMap this name = None \<Longrightarrow> proto_for this name = Some p \<Longrightarrow> p name = Some cls \<Longrightarrow>
   getService this name =
     Inr (\<lparr>stub_class = cls, stub_url = baseUrl this, stub_credentials = grpcCredentials this,
           stub_serial = constructed this\<rparr>,
          this\<lparr>activeServiceMap := (activeServiceMap this)(name \<mapsto>
                  \<lparr>stub_class = cls, stub_url = baseUrl this,
                   stub_credentials = grpcCredentials this, stub_serial = constructed this\<rparr>),
               constructed := Suc (constructed this)\<rparr>)"
  by (simp add: getService_def Let_def)

lemma getService_keeps:
  "getService this name = Inr (s, this') \<Longrightarrow> activeServiceMap this other = Some t \<Longrightarrow>
   activeServiceMap this' other = Some t"
  by (auto simp: getService_def Let_def split: option.splits)

lemma getService_fields:
  "getService this name = Inr (s, this') \<Longrightarrow>
   grpcCredentials this' = grpcCredentials this \<and> authCalls this' = authCalls this \<and>
   maxRetries this' = maxRetries this \<and> baseUrl this' = baseUrl this \<and>
   protos this' = protos this \<and> service this' = service this"
  by (auto simp: getService_def Let_def split: option.splits)

lemma getServices_keeps:
  "activeServiceMap this name = Some s \<Longrightarrow> activeServiceMap (getServices this names) name = Some s"
proof (induction names arbitrary: this)
  case Nil
  then show ?case by simp
next
  case (Cons n names)
  show ?case
  proof (cases "getService this n")
    case (Inl e)
    with Cons show ?thesis by simp
  next
    case (Inr r)
    obtain t this' where r: "r = (t, this')" by (cases r)
    with Inr Cons.prems have "activeServiceMap this' name = Some s"
      using getService_keeps by blast
    from Cons.IH [OF this] Inr r show ?thesis by simp
  qed
qed

lemma getService_counted:
  assumes "counted this" "getService this name = Inr (s, this')"
  shows "counted this'"
proof (cases "activeServiceMap this name")
  case (Some t)
  with assms show ?thesis by (simp add: getService_hit)
next
  case None
  then have "name \<notin> dom (activeServiceMap this)" by (simp add: domIff)
  with assms None show ?thesis
    by (auto simp: getService_def Let_def counted_def card_insert_if domIff split: option.splits)
qed

lemma getServices_counted: "counted this \<Longrightarrow> counted (getServices this names)"
proof (induction names arbitrary: this)
  case Nil
  then show ?case by simp
next
  case (Cons n names)
  then show ?case
    by (cases "getService this n") (auto dest: getService_counted)
qed

lemma fresh_counted: "counted (GrpcService cfg retries loaded)"
  by (simp add: counted_def GrpcService_def)

text \<open>
  C6. On a miss, \<^verbatim>\<open>getService_\<close> constructs a service object from the class for the
  name, the base URL and the current credentials, stores it under the name and returns
  it. On a hit it returns the stored object and changes nothing, and so does every later
  call for that name, whatever calls come between. From a new instance on, the number of
  objects constructed is the number of names in the cache: one per name.
\<close>

theorem getService_cache:
  "(activeServiceMap this name = None \<and> proto_for this name = Some p \<and> p name = Some cls \<longrightarrow>
      getService this name =
        Inr (\<lparr>stub_class = cls, stub_url = baseUrl this, stub_credentials = grpcCredentials this,
              stub_serial = constructed this\<rparr>,
             this\<lparr>activeServiceMap := (activeServiceMap this)(name \<mapsto>
                     \<lparr>stub_class = cls, stub_url = baseUrl this,
                      stub_credentials = grpcCredentials this, stub_serial = constructed this\<rparr>),
                  constructed := Suc (constructed this)\<rparr>)) \<and>
   (activeServiceMap this name = Some s \<longrightarrow>
      getService this name = Inr (s, this) \<and>
      (\<forall>names. getService (getServices this names) name = Inr (s, getServices this names))) \<and>
   (\<forall>names. constructed (getServices (GrpcService cfg retries loaded) names) =
      card (dom (activeServiceMap (getServices (GrpcService cfg retries loaded) names))))"
proof (intro conjI impI allI)
  assume "activeServiceMap this name = None \<and> proto_for this name = Some p \<and> p name = Some cls"
  then show "getService this name =
        Inr (\<lparr>stub_class = cls, stub_url = baseUrl this, stub_credentials = grpcCredentials this,
              stub_serial = constructed this\<rparr>,
             this\<lparr>activeServiceMap := (activeServiceMap this)(name \<mapsto>
                     \<lparr>stub_class = cls, stub_url = baseUrl this,
                      stub_credentials = grpcCredentials this, stub_serial = constructed this\<rparr>),
                  constructed := Suc (constructed this)\<rparr>)"
    using getService_miss by blast
next
  assume "activeServiceMap this name = Some s"
  then show "getService this name = Inr (s, this)" by (rule getService_hit)
next
  fix names
  assume "activeServiceMap this name = Some s"
  then have "activeServiceMap (getServices this names) name = Some s" by (rule getServices_keeps)
  then show "getService (getServices this names) name = Inr (s, getServices this names)"
    by (rule getService_hit)
next
  fix names
  from getServices_counted [OF fresh_counted, of cfg retries loaded names]
  show "constructed (getServices (GrpcService cfg retries loaded) names) =
      card (dom (activeServiceMap (getServices (GrpcService cfg retries loaded) names)))"
    by (simp add: counted_def)
qed

theorem getService_cache_witness:
  "activeServiceMap pubsub ''Publisher'' = None \<and>
   proto_for pubsub ''Publisher'' =
     Some [''Publisher'' \<mapsto> ''Publisher'', ''Subscriber'' \<mapsto> ''Subscriber''] \<and>
   (\<exists>s this'. getService pubsub ''Publisher'' = Inr (s, this') \<and>
      s = \<lparr>stub_class = ''Publisher'', stub_url = ''pubsub.googleapis.com'',
            stub_credentials = None, stub_serial = 0\<rparr> \<and>
      constructed this' = 1 \<and>
      activeServiceMap this' ''Publisher'' = Some s \<and>
      getService this' ''Publisher'' = Inr (s, this') \<and>
      getService (getServices this' [''Subscriber'', ''Publisher'']) ''Publisher'' =
        Inr (s, getServices this' [''Subscriber'', ''Publisher'']))"
proof -
  let ?ns = "[''Publisher'' \<mapsto> ''Publisher'', ''Subscriber'' \<mapsto> ''Subscriber'']"
  let ?s = "\<lparr>stub_class = ''Publisher'', stub_url = ''pubsub.googleapis.com'',
            stub_credentials = None, stub_serial = 0\<rparr>"
  let ?this' = "pubsub\<lparr>activeServiceMap := (activeServiceMap pubsub)(''Publisher'' \<mapsto> ?s),
      constructed := Suc (constructed pubsub)\<rparr>"
  have p: "activeServiceMap pubsub ''Publisher'' = None" "proto_for pubsub ''Publisher'' = Some ?ns"
    "baseUrl pubsub = ''pubsub.googleapis.com''" "grpcCredentials pubsub = None"
    "constructed pubsub = 0"
    by (simp_all add: pubsub_def GrpcService_def proto_for_def)
  have miss: "getService pubsub ''Publisher'' = Inr (?s, ?this')"
    using getService_cache [of pubsub "''Publisher''" ?ns "''Publisher''"] p by simp
  have "activeServiceMap ?this' ''Publisher'' = Some ?s" by simp
  with getService_cache [of ?this' "''Publisher''" _ _ ?s]
  have hit: "getService ?this' ''Publisher'' = Inr (?s, ?this')"
    and later: "getService (getServices ?this' [''Subscriber'', ''Publisher'']) ''Publisher'' =
      Inr (?s, getServices ?this' [''Subscriber'', ''Publisher''])"
    by blast+
  have "constructed ?this' = 1" using p by simp
  with p miss hit later show ?thesis by (simp del: getServices.simps)
qed

section \<open>Properties of the credential gate\<close>

lemma request_authenticated_fields:
  "grpcCredentials (fst (request_authenticated this name rpc)) = grpcCredentials this \<and>
   authCalls (fst (request_authenticated this name rpc)) = authCalls this"
proof (cases "getService this name")
  case (Inl e)
  then show ?thesis by (simp add: request_authenticated_def)
next
  case (Inr r)
  obtain s this' where r: "r = (s, this')" by (cases r)
  with Inr getService_fields [of this name s this']
  have "grpcCredentials this' = grpcCredentials this" "authCalls this' = authCalls this"
    by simp_all
  with Inr r show ?thesis
    by (auto simp: request_authenticated_def split: sum.splits prod.splits)
qed

lemma request_cached:
  "grpcCredentials this = Some c \<Longrightarrow>
   grpcCredentials (fst (request getAuthClient this name rpc)) = Some c \<and>
   authCalls (fst (request getAuthClient this name rpc)) = authCalls this"
  using request_authenticated_fields [of this name rpc]
  by (simp add: request_def)

lemma requests_cached:
  "grpcCredentials this = Some c \<Longrightarrow>
   grpcCredentials (requests getAuthClient this rs) = Some c \<and>
   authCalls (requests getAuthClient this rs) = authCalls this"
proof (induction rs arbitrary: this)
  case Nil
  then show ?case by simp
next
  case (Cons r rs)
  obtain name rpc where r: "r = (name, rpc)" by (cases r)
  from request_cached [OF Cons.prems, of getAuthClient name rpc]
  have c: "grpcCredentials (fst (request getAuthClient this name rpc)) = Some c"
    and a: "authCalls (fst (request getAuthClient this name rpc)) = authCalls this"
    by simp_all
  from Cons.IH [OF c] a r show ?case by simp
qed

lemma request_failed:
  assumes "grpcCredentials this = None" "getAuthClient (authCalls this) = (err, client)" "truthy err"
  shows "request getAuthClient this name rpc =
           (this\<lparr>authCalls := Suc (authCalls this)\<rparr>, Inr (Given err, Given JUndefined))"
  using assms by (simp add: request_def)

lemma request_acquires:
  assumes "grpcCredentials this = None" "getAuthClient (authCalls this) = (err, client)"
  shows "authCalls (fst (request getAuthClient this name rpc)) = Suc (authCalls this)"
    and "\<not> truthy err \<Longrightarrow> grpcCredentials (fst (request getAuthClient this name rpc)) =
           Some (Combine Ssl (FromGoogleCredential client))"
  using assms
    request_authenticated_fields [of "this\<lparr>authCalls := Suc (authCalls this),
      grpcCredentials := Some (Combine Ssl (FromGoogleCredential client))\<rparr>" name rpc]
  by (simp_all add: request_def)

text \<open>
  C5. When the credentials are unset and the provider fails, \<^verbatim>\<open>request\<close> calls back with
  the provider's error and the credentials stay unset, so that the next call asks the
  provider again. When the provider succeeds, the combined credentials are stored; and
  once credentials are stored, no sequence of later requests calls the provider or
  changes them.
\<close>

theorem credential_gate:
  "(grpcCredentials this = None \<and> getAuthClient (authCalls this) = (err, client) \<and> truthy err \<longrightarrow>
      request getAuthClient this name rpc =
        (this\<lparr>authCalls := Suc (authCalls this)\<rparr>, Inr (Given err, Given JUndefined)) \<and>
      grpcCredentials (fst (request getAuthClient this name rpc)) = None \<and>
      (\<forall>name' rpc'.
         authCalls (fst (request getAuthClient (fst (request getAuthClient this name rpc))
                      name' rpc')) = Suc (Suc (authCalls this)))) \<and>
   (grpcCredentials this = None \<and> getAuthClient (authCalls this) = (err, client) \<and> \<not> truthy err \<longrightarrow>
      grpcCredentials (fst (request getAuthClient this name rpc)) =
        Some (Combine Ssl (FromGoogleCredential client)) \<and>
      authCalls (fst (request getAuthClient this name rpc)) = Suc (authCalls this) \<and>
      (\<forall>rs. authCalls (requests getAuthClient (fst (request getAuthClient this name rpc)) rs) =
              Suc (authCalls this))) \<and>
   (grpcCredentials this = Some c \<longrightarrow>
      (\<forall>rs. grpcCredentials (requests getAuthClient this rs) = Some c \<and>
            authCalls (requests getAuthClient this rs) = authCalls this))"
proof (intro conjI impI allI)
  assume a: "grpcCredentials this = None \<and> getAuthClient (authCalls this) = (err, client) \<and> truthy err"
  then have r: "request getAuthClient this name rpc =
        (this\<lparr>authCalls := Suc (authCalls this)\<rparr>, Inr (Given err, Given JUndefined))"
    using request_failed by blast
  then show "request getAuthClient this name rpc =
        (this\<lparr>authCalls := Suc (authCalls this)\<rparr>, Inr (Given err, Given JUndefined))" .
  from r a show n: "grpcCredentials (fst (request getAuthClient this name rpc)) = None" by simp
  fix name' rpc'
  obtain err' client' where g: "getAuthClient (authCalls (this\<lparr>authCalls := Suc (authCalls this)\<rparr>)) =
      (err', client')" by (cases "getAuthClient (authCalls (this\<lparr>authCalls := Suc (authCalls this)\<rparr>))")
  have "grpcCredentials (this\<lparr>authCalls := Suc (authCalls this)\<rparr>) = None" using a by simp
  from request_acquires(1) [of "this\<lparr>authCalls := Suc (authCalls this)\<rparr>" getAuthClient
      err' client' name' rpc', OF this g] r
  show "authCalls (fst (request getAuthClient (fst (request getAuthClient this name rpc))
      name' rpc')) = Suc (Suc (authCalls this))" by simp
next
  assume a: "grpcCredentials this = None \<and> getAuthClient (authCalls this) = (err, client) \<and> \<not> truthy err"
  then show c: "grpcCredentials (fst (request getAuthClient this name rpc)) =
        Some (Combine Ssl (FromGoogleCredential client))"
    using request_acquires(2) by blast
  from a show n: "authCalls (fst (request getAuthClient this name rpc)) = Suc (authCalls this)"
    using request_acquires(1) by blast
  fix rs
  from requests_cached [OF c, of getAuthClient rs] n
  show "authCalls (requests getAuthClient (fst (request getAuthClient this name rpc)) rs) =
      Suc (authCalls this)" by simp
next
  fix rs
  assume "grpcCredentials this = Some c"
  from requests_cached [OF this, of getAuthClient rs]
  show "grpcCredentials (requests getAuthClient this rs) = Some c"
    and "authCalls (requests getAuthClient this rs) = authCalls this" by simp_all
qed

theorem credential_gate_witness:
  "grpcCredentials pubsub = None \<and>
   fails_once (authCalls pubsub) =
     (JObject [(''message'', JString ''Could not load credentials'')], 0) \<and>
   truthy (JObject [(''message'', JString ''Could not load credentials'')]) \<and>
   snd (request fails_once pubsub ''Publisher'' flaky) =
     Inr (Given (JObject [(''message'', JString ''Could not load credentials'')]), Given JUndefined) \<and>
   grpcCredentials (fst (request fails_once pubsub ''Publisher'' flaky)) = None \<and>
   authCalls (fst (request fails_once pubsub ''Publisher'' flaky)) = 1 \<and>
   fails_once 1 = (JNull, 7) \<and> \<not> truthy JNull \<and>
   grpcCredentials (fst (request fails_once (pubsub\<lparr>authCalls := 1\<rparr>) ''Publisher'' flaky)) =
     Some (Combine Ssl (FromGoogleCredential 7)) \<and>
   authCalls (requests fails_once (fst (request fails_once (pubsub\<lparr>authCalls := 1\<rparr>)
       ''Publisher'' flaky)) [(''Publisher'', flaky), (''Subscriber'', not_found)]) = 2"
proof -
  have p: "grpcCredentials pubsub = None" "authCalls pubsub = 0"
    by (simp_all add: pubsub_def GrpcService_def)
  have f: "fails_once 0 = (JObject [(''message'', JString ''Could not load credentials'')], 0)"
    "fails_once 1 = (JNull, 7)"
    by (simp_all add: fails_once_def)
  from credential_gate [of pubsub fails_once
      "JObject [(''message'', JString ''Could not load credentials'')]" 0 "''Publisher''" flaky]
    credential_gate [of "pubsub\<lparr>authCalls := 1\<rparr>" fails_once JNull 7 "''Publisher''" flaky]
    p f
  show ?thesis by (simp del: requests.simps)
qed

end
